theory Spec2Isabelle
  imports Complex_Main
begin

section \<open>The mail-capture server of src/server/index.js\<close>

subsection \<open>JSON values and the configuration object\<close>

text \<open>
  The body of \<^verbatim>\<open>PUT /api/config\<close> is whatever \<^verbatim>\<open>express.json()\<close> parsed: a JSON
  value. Numbers are the finite values a JSON literal denotes; an object lists its
  members in source order, and a repeated key takes its last value, as
  \<^verbatim>\<open>JSON.parse\<close> does. JSON has neither \<^verbatim>\<open>undefined\<close> nor \<^verbatim>\<open>NaN\<close>;
  a property that is not there reads as \<open>None\<close>.
\<close>

datatype jsval =
    JNull
  | JBool bool
  | JNum rat
  | JStr string
  | JArr "jsval list"
  | JObj "(string \<times> jsval) list"

text \<open>Decimal digits of a natural number: the name of an array index as a property key.\<close>

fun digits :: "nat \<Rightarrow> string" where
  "digits n =
     (if n < 10 then [char_of (48 + n)]
      else digits (n div 10) @ [char_of (48 + n mod 10)])"

declare digits.simps [simp del]

text \<open>
  \<^verbatim>\<open>if (rateLimit)\<close>: the truth value JavaScript gives a value. \<open>None\<close> is
  \<^verbatim>\<open>undefined\<close> (the key is not in the body).
\<close>

fun truthy :: "jsval option \<Rightarrow> bool" where
  "truthy None = False"
| "truthy (Some JNull) = False"
| "truthy (Some (JBool b)) = b"
| "truthy (Some (JNum x)) = (x \<noteq> 0)"
| "truthy (Some (JStr s)) = (s \<noteq> [])"
| "truthy (Some (JArr xs)) = True"
| "truthy (Some (JObj kvs)) = True"

text \<open>
  The own enumerable properties an object spread \<^verbatim>\<open>{...v}\<close> copies: the members of an
  object, the elements of an array and the characters of a string under their indices,
  nothing for a number or a boolean.
\<close>

fun props :: "jsval \<Rightarrow> (string \<rightharpoonup> jsval)" where
  "props (JObj kvs) = map_of (rev kvs)"
| "props (JArr xs) = map_of (zip (map digits [0..<length xs]) xs)"
| "props (JStr s) = map_of (zip (map digits [0..<length s]) (map (\<lambda>c. JStr [c]) s))"
| "props v = Map.empty"

text \<open>
  \<^verbatim>\<open>const { rateLimit, latency } = req.body\<close>: reading a named member of the body.
  \<^verbatim>\<open>express.json()\<close> hands over objects and arrays only, and neither an array nor a
  primitive has a member of these names.
\<close>

fun member_of :: "jsval \<Rightarrow> string \<Rightarrow> jsval option" where
  "member_of (JObj kvs) k = map_of (rev kvs) k"
| "member_of v k = None"

text \<open>
  The configuration (lines 22-32): two groups, each a JavaScript object, read through
  its properties. The update can store any JSON value under any key of a group.
\<close>

record jsconfig =
  rateLimit :: "string \<rightharpoonup> jsval"
  latency :: "string \<rightharpoonup> jsval"

definition default_config :: jsconfig where
  "default_config =
     \<lparr> rateLimit = [''enabled'' \<mapsto> JBool True, ''maxPerSecond'' \<mapsto> JNum 1],
       latency = [''enabled'' \<mapsto> JBool False, ''minMs'' \<mapsto> JNum 0, ''maxMs'' \<mapsto> JNum 0] \<rparr>"

text \<open>\<^verbatim>\<open>{ ...a, ...v }\<close>: the properties of \<open>v\<close> over those of \<open>a\<close>.\<close>

definition spread :: "(string \<rightharpoonup> jsval) \<Rightarrow> jsval \<Rightarrow> (string \<rightharpoonup> jsval)" where
  "spread a v = a ++ props v"

text \<open>
  \<^verbatim>\<open>app.put('/api/config')\<close> (lines 288-301). A group of the body that is there and
  truthy is spread over the stored group (\<open>merge_group\<close>: one \<^verbatim>\<open>if\<close> of the handler);
  anything else leaves the stored group as it is.
\<close>

definition merge_group :: "(string \<rightharpoonup> jsval) \<Rightarrow> jsval option \<Rightarrow> (string \<rightharpoonup> jsval)" where
  "merge_group g u =
     (case u of
        None \<Rightarrow> g
      | Some v \<Rightarrow> if truthy (Some v) then spread g v else g)"

definition put_config :: "jsconfig \<Rightarrow> jsval \<Rightarrow> jsconfig" where
  "put_config config body =
     (let config1 = config\<lparr>rateLimit := merge_group (rateLimit config) (member_of body ''rateLimit'')\<rparr>;
          config2 = config1\<lparr>latency := merge_group (latency config1) (member_of body ''latency'')\<rparr>
      in config2)"

text \<open>What the response of the handler carries: the configuration after the update.\<close>

definition put_config_response :: "jsconfig \<Rightarrow> jsval \<Rightarrow> jsconfig" where
  "put_config_response config body = put_config config body"

fun is_number :: "jsval option \<Rightarrow> bool" where
  "is_number (Some (JNum x)) = True"
| "is_number v = False"

subsection \<open>The typed configuration the mail pipeline reads\<close>

text \<open>
  The pipeline (\<^verbatim>\<open>checkRateLimit\<close>, \<^verbatim>\<open>simulateLatency\<close>, \<^verbatim>\<open>onData\<close>) is modelled on
  configurations whose fields have the types of the defaults: booleans and numbers with
  integer values (below \<open>2^53\<close> in magnitude, the integers a JavaScript number holds
  exactly). \<open>typed\<close> reads such a configuration off the stored object and is \<open>None\<close>
  on any other.
\<close>

record config =
  rateLimit_enabled :: bool
  maxPerSecond :: int
  latency_enabled :: bool
  minMs :: int
  maxMs :: int

definition defaults :: config where
  "defaults =
     \<lparr> rateLimit_enabled = True, maxPerSecond = 1,
       latency_enabled = False, minMs = 0, maxMs = 0 \<rparr>"

fun bool_of :: "jsval option \<Rightarrow> bool option" where
  "bool_of (Some (JBool b)) = Some b"
| "bool_of v = None"

fun int_of :: "jsval option \<Rightarrow> int option" where
  "int_of (Some (JNum x)) = (if of_int \<lfloor>x\<rfloor> = x then Some \<lfloor>x\<rfloor> else None)"
| "int_of v = None"

definition typed :: "jsconfig \<Rightarrow> config option" where
  "typed c =
     (case (bool_of (rateLimit c ''enabled''), int_of (rateLimit c ''maxPerSecond''),
            bool_of (latency c ''enabled''), int_of (latency c ''minMs''),
            int_of (latency c ''maxMs'')) of
        (Some re, Some m, Some le, Some lo, Some hi) \<Rightarrow>
          Some \<lparr> rateLimit_enabled = re, maxPerSecond = m,
                 latency_enabled = le, minMs = lo, maxMs = hi \<rparr>
      | _ \<Rightarrow> None)"

subsection \<open>Emails, error records and the two stores\<close>

text \<open>
  A string is the list of its characters (this model has the characters with codes up
  to \<open>0xff\<close>), and \<open>length\<close> is JavaScript's \<^verbatim>\<open>.length\<close>. A \<^verbatim>\<open>Buffer\<close> is the
  list of its bytes, a byte being a \<open>char\<close>.
\<close>

type_synonym buffer = "char list"

record attachment =
  att_id :: string
  att_filename :: string
  att_contentType :: string
  att_size :: nat
  att_content :: string
  att_cid :: "string option"

record email =
  email_id :: string
  email_from :: string
  email_to :: string
  email_cc :: string
  email_bcc :: string
  email_subject :: string
  email_text :: string
  email_html :: string
  email_attachments :: "attachment list"
  email_headers :: "(string \<times> string) list"
  email_receivedAt :: string
  email_size :: nat

datatype error_type = rate_limit | server_error

record error_record =
  err_id :: string
  err_type :: error_type
  err_code :: int
  err_message :: string
  err_timestamp :: string
  err_from :: string
  err_to :: "string list"

record state =
  emails :: "email list"
  errors :: "error_record list"
  config :: config
  lastEmailTime :: nat
  emailsInCurrentSecond :: nat

definition init :: state where
  "init = \<lparr> emails = [], errors = [], config = defaults,
            lastEmailTime = 0, emailsInCurrentSecond = 0 \<rparr>"

text \<open>
  \<^verbatim>\<open>xs.unshift(x); if (xs.length > cap) xs.pop();\<close> The email store does it with
  100 (lines 158, 163-165), the error store with 50 (lines 114-115 and 180-181).
\<close>

definition unshift_pop :: "nat \<Rightarrow> 'a \<Rightarrow> 'a list \<Rightarrow> 'a list" where
  "unshift_pop cap x xs =
     (let ys = x # xs in if length ys > cap then butlast ys else ys)"

subsection \<open>The admission check\<close>

text \<open>
  \<^verbatim>\<open>${config.rateLimit.maxPerSecond}\<close>: the decimal text of an integer-valued number
  (for magnitudes below \<open>10^21\<close>, where JavaScript prints every digit).
\<close>

definition number_to_string :: "int \<Rightarrow> string" where
  "number_to_string i = (if i < 0 then CHR ''-'' # digits (nat (- i)) else digits (nat i))"

datatype check_result = Allowed | Denied int string nat

definition rate_limit_message :: "int \<Rightarrow> string" where
  "rate_limit_message m =
     ''421 4.7.0 Rate limit exceeded: Maximum '' @ number_to_string m @
     '' email(s) per second allowed. Please retry after 1 second.''"

text \<open>
  \<^verbatim>\<open>checkRateLimit\<close> (lines 55-71). \<open>now\<close> is \<^verbatim>\<open>Date.now()\<close>, the milliseconds
  since the epoch. \<open>Denied code message retryAfter\<close> is the object with
  \<^verbatim>\<open>allowed: false\<close>; \<^verbatim>\<open>Math.ceil\<close> of an integer is that integer. The source
  also computes \<^verbatim>\<open>timeSinceLastEmail\<close> and never reads it.
\<close>

definition checkRateLimit :: "state \<Rightarrow> nat \<Rightarrow> check_result" where
  "checkRateLimit st now =
     (if \<not> rateLimit_enabled (config st) then Allowed
      else if maxPerSecond (config st) \<le> int (emailsInCurrentSecond st)
      then Denied 421 (rate_limit_message (maxPerSecond (config st))) (1000 - now mod 1000)
      else Allowed)"

subsection \<open>One SMTP session: \<^verbatim>\<open>onData\<close>\<close>

text \<open>
  What \<^verbatim>\<open>simpleParser\<close> hands to \<^verbatim>\<open>onData\<close>, as far as the handler reads it. An
  optional field is \<open>None\<close> when the parsed mail has no such property;
  \<open>p_from\<close> is \<^verbatim>\<open>parsed.from?.text\<close>, and so on.
\<close>

record parsed_attachment =
  pa_filename :: "string option"
  pa_contentType :: "string option"
  pa_size :: "nat option"
  pa_content :: buffer
  pa_cid :: "string option"

record parsed_mail =
  p_from :: "string option"
  p_to :: "string option"
  p_cc :: "string option"
  p_bcc :: "string option"
  p_subject :: "string option"
  p_text :: "string option"
  p_html :: "string option"
  p_attachments :: "parsed_attachment list option"
  p_headers :: "(string \<times> string) list"

datatype parse_result = ParseError string | Parsed parsed_mail

text \<open>
  Everything one run of \<^verbatim>\<open>onData\<close> takes from outside: the envelope of the session
  (\<open>mailFrom\<close> is \<^verbatim>\<open>session.envelope.mailFrom?.address\<close>, \<open>rcptTo\<close> the addresses of
  \<^verbatim>\<open>session.envelope.rcptTo\<close>), \<^verbatim>\<open>Date.now()\<close> in the admission check
  (\<open>check_time\<close>) and at line 160 (\<open>store_time\<close>), \<^verbatim>\<open>new Date().toISOString()\<close>
  (\<open>timestamp\<close>), the ids \<^verbatim>\<open>uuidv4()\<close> returns (\<open>uuidv4 s k\<close> is the result of call
  number \<open>k\<close> of this run), and the outcome of \<^verbatim>\<open>await simpleParser(stream)\<close>, which
  either throws an error with a message or returns the parsed mail.
\<close>

record session =
  mailFrom :: "string option"
  rcptTo :: "string list option"
  check_time :: nat
  uuidv4 :: "nat \<Rightarrow> string"
  timestamp :: string
  simpleParser :: parse_result
  store_time :: nat

text \<open>\<^verbatim>\<open>a || d\<close> on an optional string: the empty string is falsy too.\<close>

definition or_else :: "string option \<Rightarrow> string \<Rightarrow> string" where
  "or_else a d = (case a of None \<Rightarrow> d | Some s \<Rightarrow> if s = [] then d else s)"

fun join :: "string \<Rightarrow> string list \<Rightarrow> string" where
  "join sep [] = []"
| "join sep [x] = x"
| "join sep (x # y # ys) = x @ sep @ join sep (y # ys)"

definition fromAddress :: "session \<Rightarrow> string" where
  "fromAddress s = or_else (mailFrom s) ''unknown''"

definition toAddresses :: "session \<Rightarrow> string list" where
  "toAddresses s = (case rcptTo s of None \<Rightarrow> [] | Some rs \<Rightarrow> rs)"

subsection \<open>Base64, as \<^verbatim>\<open>Buffer\<close> writes and reads it\<close>

text \<open>
  \<^verbatim>\<open>buf.toString('base64')\<close>: every three bytes give four characters of the alphabet
  \<^verbatim>\<open>A-Z a-z 0-9 + /\<close>; one or two bytes left over give two or three characters and
  \<^verbatim>\<open>=\<close> padding up to four.
\<close>

definition b64_char :: "nat \<Rightarrow> char" where
  "b64_char n =
     (if n < 26 then char_of (65 + n)
      else if n < 52 then char_of (71 + n)
      else if n < 62 then char_of (n - 4)
      else if n = 62 then CHR ''+''
      else CHR ''/'')"

fun sextets :: "buffer \<Rightarrow> nat list" where
  "sextets [] = []"
| "sextets [a] = [of_char a div 4, (of_char a mod 4) * 16]"
| "sextets [a, b] =
     [of_char a div 4, (of_char a mod 4) * 16 + of_char b div 16, (of_char b mod 16) * 4]"
| "sextets (a # b # c # bs) =
     [of_char a div 4, (of_char a mod 4) * 16 + of_char b div 16,
      (of_char b mod 16) * 4 + of_char c div 64, of_char c mod 64] @ sextets bs"

definition to_base64 :: "buffer \<Rightarrow> string" where
  "to_base64 buf =
     map b64_char (sextets buf) @ replicate ((3 - length buf mod 3) mod 3) (CHR ''='')"

text \<open>
  \<^verbatim>\<open>Buffer.from(s, 'base64')\<close>: reading stops at the first \<^verbatim>\<open>=\<close>, characters outside
  the alphabet are skipped (\<^verbatim>\<open>-\<close> and \<^verbatim>\<open>_\<close> of the URL-safe alphabet count as
  \<^verbatim>\<open>+\<close> and \<^verbatim>\<open>/\<close>), four characters give three bytes, and two or three characters
  left over give one or two bytes.
\<close>

definition b64_index :: "char \<Rightarrow> nat option" where
  "b64_index c =
     (let n = (of_char c :: nat) in
      if 65 \<le> n \<and> n \<le> 90 then Some (n - 65)
      else if 97 \<le> n \<and> n \<le> 122 then Some (n - 71)
      else if 48 \<le> n \<and> n \<le> 57 then Some (n + 4)
      else if c = CHR ''+'' \<or> c = CHR ''-'' then Some 62
      else if c = CHR ''/'' \<or> c = CHR ''_'' then Some 63
      else None)"

fun unsextets :: "nat list \<Rightarrow> buffer" where
  "unsextets (p # q # r # s # ss) =
     [char_of (p * 4 + q div 16), char_of ((q mod 16) * 16 + r div 4),
      char_of ((r mod 4) * 64 + s)] @ unsextets ss"
| "unsextets [p, q, r] = [char_of (p * 4 + q div 16), char_of ((q mod 16) * 16 + r div 4)]"
| "unsextets [p, q] = [char_of (p * 4 + q div 16)]"
| "unsextets ss = []"

definition from_base64 :: "string \<Rightarrow> buffer" where
  "from_base64 s =
     unsextets (List.map_filter b64_index (takeWhile (\<lambda>c. c \<noteq> CHR ''='') s))"

subsection \<open>Building the email (lines 134-156)\<close>

definition make_attachment :: "string \<Rightarrow> parsed_attachment \<Rightarrow> attachment" where
  "make_attachment uuid a =
     \<lparr> att_id = uuid,
       att_filename = or_else (pa_filename a) ''unnamed'',
       att_contentType = or_else (pa_contentType a) ''application/octet-stream'',
       att_size = (case pa_size a of None \<Rightarrow> 0 | Some n \<Rightarrow> n),
       att_content = to_base64 (pa_content a),
       att_cid = (case pa_cid a of None \<Rightarrow> None | Some c \<Rightarrow> if c = [] then None else Some c) \<rparr>"

text \<open>
  \<^verbatim>\<open>parsed.attachments?.map(...) || []\<close>: attachment number \<open>i\<close> takes the id of
  \<^verbatim>\<open>uuidv4()\<close> call number \<open>i\<close>.
\<close>

definition make_attachments :: "session \<Rightarrow> parsed_mail \<Rightarrow> attachment list" where
  "make_attachments s parsed =
     (case p_attachments parsed of
        None \<Rightarrow> []
      | Some as \<Rightarrow> map (\<lambda>(i, a). make_attachment (uuidv4 s i) a) (enumerate 0 as))"

definition make_email :: "session \<Rightarrow> parsed_mail \<Rightarrow> email" where
  "make_email s parsed =
     (let attachments = make_attachments s parsed in
      \<lparr> email_id = uuidv4 s (length attachments),
        email_from = or_else (p_from parsed) (fromAddress s),
        email_to = or_else (p_to parsed) (join '', '' (toAddresses s)),
        email_cc = or_else (p_cc parsed) [],
        email_bcc = or_else (p_bcc parsed) [],
        email_subject = or_else (p_subject parsed) ''(no subject)'',
        email_text = or_else (p_text parsed) [],
        email_html = or_else (p_html parsed) [],
        email_attachments = attachments,
        email_headers = p_headers parsed,
        email_receivedAt = timestamp s,
        email_size = (case p_text parsed of None \<Rightarrow> 0 | Some t \<Rightarrow> length t) \<rparr>)"

subsection \<open>The handler\<close>

text \<open>
  \<^verbatim>\<open>callback()\<close> acknowledges the message; \<^verbatim>\<open>callback(createSmtpError(code, message))\<close>
  rejects it.
\<close>

datatype reply = Ack | Reject int string

text \<open>
  Lines 102-125: the admission check and, on a denial, the error record and the
  rejection (sent once the rest of the stream is drained). \<open>None\<close>: the message is
  admitted and the handler goes on to its two \<^verbatim>\<open>await\<close>s.
\<close>

definition onData_admission :: "state \<Rightarrow> session \<Rightarrow> (state \<times> reply) option" where
  "onData_admission st s =
     (case checkRateLimit st (check_time s) of
        Allowed \<Rightarrow> None
      | Denied code message retryAfter \<Rightarrow>
          Some (st\<lparr>errors :=
                     unshift_pop 50
                       \<lparr> err_id = uuidv4 s 0, err_type = rate_limit, err_code = code,
                         err_message = message, err_timestamp = timestamp s,
                         err_from = fromAddress s, err_to = toAddresses s \<rparr>
                       (errors st)\<rparr>,
                Reject code message))"

text \<open>
  Lines 130-184, on the state the handler finds when \<^verbatim>\<open>await simpleParser(stream)\<close>
  settles (other sessions may have run since the admission check): the email is built and
  stored and the counters advance, or the error thrown by the parser is caught.
\<close>

definition onData_ingest :: "state \<Rightarrow> session \<Rightarrow> state \<times> reply" where
  "onData_ingest st s =
     (case simpleParser s of
        Parsed parsed \<Rightarrow>
          (st\<lparr>emails := unshift_pop 100 (make_email s parsed) (emails st),
              emailsInCurrentSecond := emailsInCurrentSecond st + 1,
              lastEmailTime := store_time s\<rparr>,
           Ack)
      | ParseError msg \<Rightarrow>
          (st\<lparr>errors :=
                unshift_pop 50
                  \<lparr> err_id = uuidv4 s 0, err_type = server_error, err_code = 451,
                    err_message = ''451 4.3.0 Server error: '' @ msg,
                    err_timestamp = timestamp s,
                    err_from = fromAddress s, err_to = toAddresses s \<rparr>
                  (errors st)\<rparr>,
           Reject 451 (''451 4.3.0 Server error: '' @ msg)))"

text \<open>A session that runs from start to end with nothing in between.\<close>

definition onData :: "state \<Rightarrow> session \<Rightarrow> state \<times> reply" where
  "onData st s =
     (case onData_admission st s of
        Some rejected \<Rightarrow> rejected
      | None \<Rightarrow> onData_ingest st s)"

subsection \<open>The system: sessions, the timer and the API that changes the stores\<close>

text \<open>\<^verbatim>\<open>index = xs.findIndex(p); if (index !== -1) xs.splice(index, 1)\<close>\<close>

fun remove_first :: "('a \<Rightarrow> bool) \<Rightarrow> 'a list \<Rightarrow> 'a list" where
  "remove_first p [] = []"
| "remove_first p (x # xs) = (if p x then xs else x # remove_first p xs)"

text \<open>
  What can happen to the state, one event at a time: the two halves of a session (any
  interleaving of sessions is a sequence of them), the one-second timer of lines 39-41,
  the deleting routes (lines 256-269 and 277-280), and a configuration update that leaves
  the typed configuration \<open>c\<close>.
\<close>

datatype event =
    Admission session
  | Ingestion session
  | TimerReset
  | DeleteEmail string
  | DeleteAllEmails
  | ClearErrors
  | ConfigUpdate config

fun step :: "state \<Rightarrow> event \<Rightarrow> state" where
  "step st (Admission s) = (case onData_admission st s of None \<Rightarrow> st | Some (st', r) \<Rightarrow> st')"
| "step st (Ingestion s) = fst (onData_ingest st s)"
| "step st TimerReset = st\<lparr>emailsInCurrentSecond := 0\<rparr>"
| "step st (DeleteEmail i) = st\<lparr>emails := remove_first (\<lambda>e. email_id e = i) (emails st)\<rparr>"
| "step st DeleteAllEmails = st\<lparr>emails := []\<rparr>"
| "step st ClearErrors = st\<lparr>errors := []\<rparr>"
| "step st (ConfigUpdate c) = st\<lparr>config := c\<rparr>"

definition run :: "state \<Rightarrow> event list \<Rightarrow> state" where
  "run st evs = foldl step st evs"

subsection \<open>The attachment routes (lines 216-253)\<close>

record file_response =
  res_content_type :: string
  res_content_disposition :: string
  res_content_length :: nat
  res_body :: buffer

text \<open>
  \<open>NotFound\<close> is the 404 with its error text and \<open>Sent\<close> the response the handler
  sends. \<^verbatim>\<open>res.setHeader(name, value)\<close> throws (Node's \<^verbatim>\<open>ERR_INVALID_CHAR\<close>) when the
  value has a character other than the tab and the codes \<open>0x20-0x7e\<close> and
  \<open>0x80-0xff\<close>; the handler does not catch it, and the framework answers 500:
  \<open>ServerError\<close>.
\<close>

datatype response = NotFound string | Sent file_response | ServerError

definition header_char :: "char \<Rightarrow> bool" where
  "header_char c =
     (let n = (of_char c :: nat) in n = 9 \<or> (32 \<le> n \<and> n \<le> 126) \<or> 128 \<le> n)"

definition header_value :: "string \<Rightarrow> bool" where
  "header_value v = list_all header_char v"

text \<open>
  The two routes differ in the word that starts \<^verbatim>\<open>Content-Disposition\<close> and in nothing
  else; \<open>attachment_route\<close> is their common text with that word as \<open>disposition\<close>.
\<close>

definition attachment_route :: "string \<Rightarrow> state \<Rightarrow> string \<Rightarrow> string \<Rightarrow> response" where
  "attachment_route disposition st emailId attachmentId =
     (case find (\<lambda>e. email_id e = emailId) (emails st) of
        None \<Rightarrow> NotFound ''Email not found''
      | Some e \<Rightarrow>
          (case find (\<lambda>a. att_id a = attachmentId) (email_attachments e) of
             None \<Rightarrow> NotFound ''Attachment not found''
           | Some a \<Rightarrow>
               (let buffer = from_base64 (att_content a);
                    content_disposition =
                      disposition @ ''; filename='' @ [CHR 0x22] @ att_filename a @ [CHR 0x22]
                in if header_value (att_contentType a)
                   then if header_value content_disposition
                        then Sent \<lparr> res_content_type = att_contentType a,
                                    res_content_disposition = content_disposition,
                                    res_content_length = length buffer,
                                    res_body = buffer \<rparr>
                        else ServerError
                   else ServerError)))"

definition download :: "state \<Rightarrow> string \<Rightarrow> string \<Rightarrow> response" where
  "download = attachment_route ''attachment''"

definition inline :: "state \<Rightarrow> string \<Rightarrow> string \<Rightarrow> response" where
  "inline = attachment_route ''inline''"

subsection \<open>JavaScript numbers and \<^verbatim>\<open>simulateLatency\<close>\<close>

text \<open>
  A JavaScript number is an IEEE 754 binary64 value, and every arithmetic operation
  returns the binary64 value nearest to the exact result, a tie going to the even
  significand. Finite numbers are modelled by the rationals they denote. \<open>fl64\<close> is that
  rounding for results below \<open>2^1024\<close> in magnitude (beyond, JavaScript gives
  \<^verbatim>\<open>Infinity\<close>, which is outside this model): the significand has 53 bits, and the
  least exponent is \<open>-1022\<close>.
\<close>

text \<open>The number of binary digits of a positive integer.\<close>

function bits :: "int \<Rightarrow> int" where
  "bits n = (if n \<le> 0 then 0 else 1 + bits (n div 2))"
  by pat_completeness auto
termination
  by (relation "measure nat") auto

declare bits.simps [simp del]

definition pow2 :: "int \<Rightarrow> rat" where
  "pow2 k = (if 0 \<le> k then 2 ^ nat k else 1 / 2 ^ nat (- k))"

text \<open>For \<open>x > 0\<close>, the exponent \<open>e\<close> with \<open>2^e \<le> x < 2^(e+1)\<close>.\<close>

definition ilog2 :: "rat \<Rightarrow> int" where
  "ilog2 x =
     (if 1 \<le> x then bits \<lfloor>x\<rfloor> - 1
      else - bits (\<lceil>1 / x\<rceil> - 1))"

definition round_half_even :: "rat \<Rightarrow> int" where
  "round_half_even q =
     (let f = \<lfloor>q\<rfloor>; d = q - of_int f in
      if d < 1 / 2 then f
      else if 1 / 2 < d then f + 1
      else if even f then f else f + 1)"

definition fl64 :: "rat \<Rightarrow> rat" where
  "fl64 x =
     (if x = 0 then 0
      else (let e = max (ilog2 \<bar>x\<bar>) (- 1022); ulp = pow2 (e - 52)
            in of_int (round_half_even (x / ulp)) * ulp))"

definition js_add :: "rat \<Rightarrow> rat \<Rightarrow> rat" where
  "js_add a b = fl64 (a + b)"

definition js_sub :: "rat \<Rightarrow> rat \<Rightarrow> rat" where
  "js_sub a b = fl64 (a - b)"

definition js_mul :: "rat \<Rightarrow> rat \<Rightarrow> rat" where
  "js_mul a b = fl64 (a * b)"

text \<open>
  \<^verbatim>\<open>simulateLatency\<close> (lines 44-52). \<open>random\<close> is what \<^verbatim>\<open>Math.random()\<close> returns, a
  number in \<open>[0, 1)\<close>. \<open>None\<close>: the promise that is already resolved, no timer;
  \<open>Some delay\<close>: the timer \<^verbatim>\<open>setTimeout(resolve, delay)\<close>.
\<close>

definition simulateLatency :: "config \<Rightarrow> rat \<Rightarrow> int option" where
  "simulateLatency cfg random =
     (if \<not> latency_enabled cfg then None
      else Some \<lfloor>js_add
                   (js_mul random
                      (js_add (js_sub (of_int (maxMs cfg)) (of_int (minMs cfg))) 1))
                   (of_int (minMs cfg))\<rfloor>)"

subsection \<open>Notions the properties are stated with\<close>

text \<open>
  The value an update supplies for field \<open>k\<close> of a group: \<open>u\<close> is the group as read
  from the body, \<open>None\<close> when the body has no such group.
\<close>

definition supplied :: "jsval option \<Rightarrow> string \<Rightarrow> jsval option" where
  "supplied u k = (case u of None \<Rightarrow> None | Some v \<Rightarrow> props v k)"

definition numeric_fields :: "jsconfig \<Rightarrow> bool" where
  "numeric_fields c \<longleftrightarrow>
     is_number (rateLimit c ''maxPerSecond'') \<and> is_number (latency c ''minMs'') \<and>
     is_number (latency c ''maxMs'')"

text \<open>The update supplies a number for field \<open>k\<close>, or nothing.\<close>

definition number_or_absent :: "jsval option \<Rightarrow> string \<Rightarrow> bool" where
  "number_or_absent u k = (case supplied u k of None \<Rightarrow> True | Some x \<Rightarrow> is_number (Some x))"

text \<open>Inserting the entries of \<open>es\<close> one after the other, the first of \<open>es\<close> first.\<close>

definition insert_all :: "nat \<Rightarrow> 'a list \<Rightarrow> 'a list \<Rightarrow> 'a list" where
  "insert_all cap es xs = foldl (\<lambda>store e. unshift_pop cap e store) xs es"

text \<open>The exponent \<open>fl64\<close> rounds at: that of the binade of \<open>x\<close>, and \<open>-1022\<close> below the normal range.\<close>

definition expo :: "rat \<Rightarrow> int" where
  "expo x = max (ilog2 \<bar>x\<bar>) (- 1022)"

text \<open>The capacity invariant of the two stores.\<close>

definition store_inv :: "state \<Rightarrow> bool" where
  "store_inv st \<longleftrightarrow> length (emails st) \<le> 100 \<and> length (errors st) \<le> 50"

text \<open>The email a session stores when its message parses.\<close>

definition ingested :: "session \<Rightarrow> email option" where
  "ingested s =
     (case simpleParser s of Parsed parsed \<Rightarrow> Some (make_email s parsed) | ParseError msg \<Rightarrow> None)"

subsection \<open>Concrete inputs\<close>

definition sample_mail :: parsed_mail where
  "sample_mail =
     \<lparr> p_from = Some ''Alice <alice@example.com>'', p_to = None, p_cc = None, p_bcc = None,
       p_subject = None, p_text = Some ''hello'', p_html = None,
       p_attachments = Some
         [\<lparr> pa_filename = None, pa_contentType = None, pa_size = Some 2,
            pa_content = ''Ma'', pa_cid = None \<rparr>,
          \<lparr> pa_filename = Some ''a.txt'', pa_contentType = Some ''text/plain'', pa_size = Some 3,
            pa_content = ''Man'', pa_cid = Some ''part1'' \<rparr>],
       p_headers = [(''from'', ''Alice <alice@example.com>'')] \<rparr>"

definition sample_session :: session where
  "sample_session =
     \<lparr> mailFrom = Some ''bob@example.com'',
       rcptTo = Some [''carol@example.com'', ''dave@example.com''],
       check_time = 1700000000250,
       uuidv4 = (\<lambda>k. ''uuid-'' @ digits k),
       timestamp = ''2023-11-14T22:13:20.250Z'',
       simpleParser = Parsed sample_mail,
       store_time = 1700000000900 \<rparr>"

definition failing_session :: session where
  "failing_session = sample_session\<lparr>simpleParser := ParseError ''Unexpected end of input''\<rparr>"

definition plain_mail :: parsed_mail where
  "plain_mail =
     \<lparr> p_from = None, p_to = Some ''carol@example.com'', p_cc = None, p_bcc = None,
       p_subject = Some ''Hi'', p_text = None, p_html = None,
       p_attachments = None, p_headers = [] \<rparr>"

definition bounce_session :: session where
  "bounce_session = sample_session\<lparr>mailFrom := Some [], simpleParser := Parsed plain_mail\<rparr>"

text \<open>A message with one attachment whose filename has a line feed in it.\<close>

definition two_line_name_mail :: parsed_mail where
  "two_line_name_mail =
     sample_mail\<lparr>p_attachments := Some
       [\<lparr> pa_filename = Some (''a'' @ [CHR 0x0A] @ ''b.txt''),
          pa_contentType = Some ''text/plain'', pa_size = Some 3,
          pa_content = ''Man'', pa_cid = None \<rparr>]\<rparr>"

definition two_line_name_session :: session where
  "two_line_name_session = sample_session\<lparr>simpleParser := Parsed two_line_name_mail\<rparr>"

text \<open>The initial state after one accepted message in the current second.\<close>

definition busy :: state where
  "busy = init\<lparr>emailsInCurrentSecond := 1\<rparr>"

section \<open>Properties\<close>

subsection \<open>The configuration update\<close>

lemma merge_group_None: "merge_group g None = g"
  by (simp add: merge_group_def)

lemma props_falsy: "\<not> truthy (Some v) \<Longrightarrow> props v = Map.empty"
  by (cases v) auto

lemma merge_group_Some: "merge_group g (Some v) = g ++ props v"
  by (cases "truthy (Some v)") (simp_all add: merge_group_def spread_def props_falsy)

lemma rateLimit_put:
  "rateLimit (put_config c b) = merge_group (rateLimit c) (member_of b ''rateLimit'')"
  by (simp add: put_config_def Let_def)

lemma latency_put:
  "latency (put_config c b) = merge_group (latency c) (member_of b ''latency'')"
  by (simp add: put_config_def Let_def)

lemma put_latency_enabled:
  "put_config c (JObj [(''latency'', JObj [(''enabled'', JBool True)])]) =
     c\<lparr>latency := (latency c)(''enabled'' \<mapsto> JBool True)\<rparr>"
  by (simp add: put_config_def merge_group_def spread_def)

lemma typed_default: "typed default_config = Some defaults"
  by (simp add: typed_def default_config_def defaults_def)

text \<open>
  C5. The update merges each group field by field: when the body has a \<^verbatim>\<open>rateLimit\<close>
  group, every property of that group is stored under its key and every key the group
  does not have keeps its prior value; the same, independently, for \<^verbatim>\<open>latency\<close>; a
  group the body does not have is left as it was. The update
  \<^verbatim>\<open>{latency: {enabled: true}}\<close> changes \<^verbatim>\<open>latency.enabled\<close> and nothing else.
\<close>

theorem put_config_frame:
  "(member_of body ''rateLimit'' = Some v \<longrightarrow>
      (\<forall>k x. props v k = Some x \<longrightarrow> rateLimit (put_config c body) k = Some x) \<and>
      (\<forall>k. props v k = None \<longrightarrow> rateLimit (put_config c body) k = rateLimit c k)) \<and>
   (member_of body ''latency'' = Some w \<longrightarrow>
      (\<forall>k x. props w k = Some x \<longrightarrow> latency (put_config c body) k = Some x) \<and>
      (\<forall>k. props w k = None \<longrightarrow> latency (put_config c body) k = latency c k)) \<and>
   (member_of body ''rateLimit'' = None \<longrightarrow> rateLimit (put_config c body) = rateLimit c) \<and>
   (member_of body ''latency'' = None \<longrightarrow> latency (put_config c body) = latency c) \<and>
   put_config c (JObj [(''latency'', JObj [(''enabled'', JBool True)])]) =
     c\<lparr>latency := (latency c)(''enabled'' \<mapsto> JBool True)\<rparr>"
proof -
  have rl: "rateLimit (put_config c body) = rateLimit c ++ props v"
    if "member_of body ''rateLimit'' = Some v"
    using that by (simp add: rateLimit_put merge_group_Some)
  have lat: "latency (put_config c body) = latency c ++ props w"
    if "member_of body ''latency'' = Some w"
    using that by (simp add: latency_put merge_group_Some)
  have rl_none: "rateLimit (put_config c body) = rateLimit c"
    if "member_of body ''rateLimit'' = None"
    using that by (simp add: rateLimit_put merge_group_None)
  have lat_none: "latency (put_config c body) = latency c"
    if "member_of body ''latency'' = None"
    using that by (simp add: latency_put merge_group_None)
  show ?thesis
    using rl lat rl_none lat_none put_latency_enabled [of c]
    by (simp add: map_add_def)
qed

theorem put_config_frame_witness:
  "member_of (JObj [(''latency'', JObj [(''enabled'', JBool True)])]) ''latency''
     = Some (JObj [(''enabled'', JBool True)]) \<and>
   member_of (JObj [(''latency'', JObj [(''enabled'', JBool True)])]) ''rateLimit'' = None \<and>
   latency (put_config default_config (JObj [(''latency'', JObj [(''enabled'', JBool True)])]))
     ''enabled'' = Some (JBool True) \<and>
   latency (put_config default_config (JObj [(''latency'', JObj [(''enabled'', JBool True)])]))
     ''minMs'' = Some (JNum 0) \<and>
   latency (put_config default_config (JObj [(''latency'', JObj [(''enabled'', JBool True)])]))
     ''maxMs'' = Some (JNum 0) \<and>
   rateLimit (put_config default_config (JObj [(''latency'', JObj [(''enabled'', JBool True)])]))
     = rateLimit default_config"
  using put_config_frame [of "JObj [(''latency'', JObj [(''enabled'', JBool True)])]"
      JNull default_config "JObj [(''enabled'', JBool True)]"]
  by (simp add: default_config_def)

text \<open>
  C10. An update whose body has neither a \<^verbatim>\<open>rateLimit\<close> nor a \<^verbatim>\<open>latency\<close> member
  leaves the configuration as it was, and the response carries that configuration.
\<close>

theorem put_config_identity:
  assumes "member_of body ''rateLimit'' = None" and "member_of body ''latency'' = None"
  shows "put_config c body = c \<and> put_config_response c body = c"
  using assms by (simp add: put_config_response_def put_config_def merge_group_def)

theorem put_config_identity_witness:
  "put_config default_config (JObj [(''verbose'', JBool True)]) = default_config \<and>
   put_config_response default_config (JObj [(''verbose'', JBool True)]) = default_config \<and>
   put_config default_config (JArr []) = default_config"
  using put_config_identity [of "JObj [(''verbose'', JBool True)]" default_config]
    put_config_identity [of "JArr []" default_config]
  by simp

lemma rateLimit_put_supplied:
  "rateLimit (put_config c body) k =
     (case supplied (member_of body ''rateLimit'') k of
        None \<Rightarrow> rateLimit c k | Some x \<Rightarrow> Some x)"
  by (cases "member_of body ''rateLimit''")
     (simp_all add: rateLimit_put merge_group_None merge_group_Some supplied_def map_add_def)

lemma latency_put_supplied:
  "latency (put_config c body) k =
     (case supplied (member_of body ''latency'') k of
        None \<Rightarrow> latency c k | Some x \<Rightarrow> Some x)"
  by (cases "member_of body ''latency''")
     (simp_all add: latency_put merge_group_None merge_group_Some supplied_def map_add_def)

text \<open>
  C6, as stated, fails: the handler stores what the body supplies, with no coercion and
  no fallback. From the defaults, the update \<^verbatim>\<open>{rateLimit: {maxPerSecond: "abc"}}\<close>
  leaves the string \<^verbatim>\<open>"abc"\<close> in \<^verbatim>\<open>rateLimit.maxPerSecond\<close>.
\<close>

theorem put_config_stores_non_number:
  "is_number (rateLimit default_config ''maxPerSecond'') \<and>
   rateLimit (put_config default_config
       (JObj [(''rateLimit'', JObj [(''maxPerSecond'', JStr ''abc'')])])) ''maxPerSecond''
     = Some (JStr ''abc'') \<and>
   \<not> is_number (rateLimit (put_config default_config
       (JObj [(''rateLimit'', JObj [(''maxPerSecond'', JStr ''abc'')])])) ''maxPerSecond'')"
  by (simp add: put_config_def merge_group_def spread_def default_config_def)

text \<open>
  C6, amended. After an update each numeric field (\<^verbatim>\<open>rateLimit.maxPerSecond\<close>,
  \<^verbatim>\<open>latency.minMs\<close>, \<^verbatim>\<open>latency.maxMs\<close>) holds the value the update supplies for it,
  as given, or its prior value when the update supplies none. So the three fields hold
  numbers after the update when they did before and every value the update supplies for
  them is a number.
\<close>

theorem put_config_numeric_fields:
  "rateLimit (put_config c body) ''maxPerSecond'' =
     (case supplied (member_of body ''rateLimit'') ''maxPerSecond'' of
        None \<Rightarrow> rateLimit c ''maxPerSecond'' | Some x \<Rightarrow> Some x) \<and>
   latency (put_config c body) ''minMs'' =
     (case supplied (member_of body ''latency'') ''minMs'' of
        None \<Rightarrow> latency c ''minMs'' | Some x \<Rightarrow> Some x) \<and>
   latency (put_config c body) ''maxMs'' =
     (case supplied (member_of body ''latency'') ''maxMs'' of
        None \<Rightarrow> latency c ''maxMs'' | Some x \<Rightarrow> Some x) \<and>
   (numeric_fields c \<and>
    number_or_absent (member_of body ''rateLimit'') ''maxPerSecond'' \<and>
    number_or_absent (member_of body ''latency'') ''minMs'' \<and>
    number_or_absent (member_of body ''latency'') ''maxMs''
    \<longrightarrow> numeric_fields (put_config c body))"
  by (auto simp add: rateLimit_put_supplied latency_put_supplied numeric_fields_def
      number_or_absent_def split: option.splits)

theorem put_config_numeric_fields_witness:
  "numeric_fields default_config \<and>
   number_or_absent (member_of (JObj [(''rateLimit'', JObj [(''maxPerSecond'', JNum 5)]),
       (''latency'', JObj [(''enabled'', JBool True), (''maxMs'', JNum 250)])]) ''rateLimit'') ''maxPerSecond'' \<and>
   number_or_absent (member_of (JObj [(''rateLimit'', JObj [(''maxPerSecond'', JNum 5)]),
       (''latency'', JObj [(''enabled'', JBool True), (''maxMs'', JNum 250)])]) ''latency'') ''minMs'' \<and>
   number_or_absent (member_of (JObj [(''rateLimit'', JObj [(''maxPerSecond'', JNum 5)]),
       (''latency'', JObj [(''enabled'', JBool True), (''maxMs'', JNum 250)])]) ''latency'') ''maxMs'' \<and>
   numeric_fields (put_config default_config (JObj [(''rateLimit'', JObj [(''maxPerSecond'', JNum 5)]),
       (''latency'', JObj [(''enabled'', JBool True), (''maxMs'', JNum 250)])])) \<and>
   rateLimit (put_config default_config (JObj [(''rateLimit'', JObj [(''maxPerSecond'', JNum 5)]),
       (''latency'', JObj [(''enabled'', JBool True), (''maxMs'', JNum 250)])])) ''maxPerSecond''
     = Some (JNum 5) \<and>
   latency (put_config default_config (JObj [(''rateLimit'', JObj [(''maxPerSecond'', JNum 5)]),
       (''latency'', JObj [(''enabled'', JBool True), (''maxMs'', JNum 250)])])) ''minMs''
     = Some (JNum 0) \<and>
   latency (put_config default_config (JObj [(''rateLimit'', JObj [(''maxPerSecond'', JNum 5)]),
       (''latency'', JObj [(''enabled'', JBool True), (''maxMs'', JNum 250)])])) ''maxMs''
     = Some (JNum 250)"
  using put_config_numeric_fields [of default_config
      "JObj [(''rateLimit'', JObj [(''maxPerSecond'', JNum 5)]),
             (''latency'', JObj [(''enabled'', JBool True), (''maxMs'', JNum 250)])]"]
  by (simp add: numeric_fields_def number_or_absent_def supplied_def default_config_def)

subsection \<open>The admission check\<close>

text \<open>
  C2. With rate limiting disabled the check allows. With it enabled and the counter at
  or above \<^verbatim>\<open>maxPerSecond\<close> it denies with code 421, the message that states the
  configured limit, and \<^verbatim>\<open>retryAfter\<close> equal to \<open>1000 - now mod 1000\<close>, which lies in
  \<open>[0, 1000]\<close> (the subtraction does not truncate). With it enabled and the counter
  below \<^verbatim>\<open>maxPerSecond\<close> it allows.
\<close>

theorem checkRateLimit_contract:
  "(\<not> rateLimit_enabled (config st) \<longrightarrow> checkRateLimit st t = Allowed) \<and>
   (rateLimit_enabled (config st) \<and> maxPerSecond (config st) \<le> int (emailsInCurrentSecond st) \<longrightarrow>
      checkRateLimit st t =
        Denied 421
          (''421 4.7.0 Rate limit exceeded: Maximum '' @ number_to_string (maxPerSecond (config st)) @
           '' email(s) per second allowed. Please retry after 1 second.'')
          (1000 - t mod 1000) \<and>
      (1000 - t mod 1000) + t mod 1000 = 1000 \<and>
      0 \<le> 1000 - t mod 1000 \<and> 1000 - t mod 1000 \<le> 1000) \<and>
   (rateLimit_enabled (config st) \<and> int (emailsInCurrentSecond st) < maxPerSecond (config st) \<longrightarrow>
      checkRateLimit st t = Allowed)"
  by (simp add: checkRateLimit_def rate_limit_message_def)

theorem checkRateLimit_contract_witness:
  "rateLimit_enabled (config busy) \<and>
   maxPerSecond (config busy) \<le> int (emailsInCurrentSecond busy) \<and>
   checkRateLimit busy 1700000000250 =
     Denied 421
       ''421 4.7.0 Rate limit exceeded: Maximum 1 email(s) per second allowed. Please retry after 1 second.''
       750 \<and>
   int (emailsInCurrentSecond init) < maxPerSecond (config init) \<and>
   checkRateLimit init 1700000000250 = Allowed \<and>
   \<not> rateLimit_enabled (config (init\<lparr>config := defaults\<lparr>rateLimit_enabled := False\<rparr>,
                                      emailsInCurrentSecond := 7\<rparr>)) \<and>
   checkRateLimit (init\<lparr>config := defaults\<lparr>rateLimit_enabled := False\<rparr>,
                        emailsInCurrentSecond := 7\<rparr>) 1700000000250 = Allowed"
  using checkRateLimit_contract [of busy 1700000000250]
    checkRateLimit_contract [of init 1700000000250]
    checkRateLimit_contract [of "init\<lparr>config := defaults\<lparr>rateLimit_enabled := False\<rparr>,
                                      emailsInCurrentSecond := 7\<rparr>" 1700000000250]
  by (simp add: busy_def init_def defaults_def number_to_string_def digits.simps char_of_def bit_0)

subsection \<open>The outcomes of a session\<close>

lemma admission_Some:
  "onData_admission st s = Some (st', r) \<longleftrightarrow>
     rateLimit_enabled (config st) \<and> maxPerSecond (config st) \<le> int (emailsInCurrentSecond st) \<and>
     st' = st\<lparr>errors := unshift_pop 50
               \<lparr> err_id = uuidv4 s 0, err_type = rate_limit, err_code = 421,
                 err_message = rate_limit_message (maxPerSecond (config st)),
                 err_timestamp = timestamp s,
                 err_from = fromAddress s, err_to = toAddresses s \<rparr> (errors st)\<rparr> \<and>
     r = Reject 421 (rate_limit_message (maxPerSecond (config st)))"
  by (auto simp add: onData_admission_def checkRateLimit_def)

lemma admission_None:
  "onData_admission st s = None \<longleftrightarrow>
     \<not> (rateLimit_enabled (config st) \<and> maxPerSecond (config st) \<le> int (emailsInCurrentSecond st))"
  by (auto simp add: onData_admission_def checkRateLimit_def)

lemma ingest_Parsed:
  "simpleParser s = Parsed p \<Longrightarrow>
   onData_ingest st s =
     (st\<lparr>emails := unshift_pop 100 (make_email s p) (emails st),
         emailsInCurrentSecond := emailsInCurrentSecond st + 1,
         lastEmailTime := store_time s\<rparr>, Ack)"
  by (simp add: onData_ingest_def)

lemma ingest_ParseError:
  "simpleParser s = ParseError msg \<Longrightarrow>
   onData_ingest st s =
     (st\<lparr>errors := unshift_pop 50
           \<lparr> err_id = uuidv4 s 0, err_type = server_error, err_code = 451,
             err_message = ''451 4.3.0 Server error: '' @ msg,
             err_timestamp = timestamp s,
             err_from = fromAddress s, err_to = toAddresses s \<rparr> (errors st)\<rparr>,
      Reject 451 (''451 4.3.0 Server error: '' @ msg))"
  by (simp add: onData_ingest_def)

lemma sample_parsed: "simpleParser sample_session = Parsed sample_mail"
  by (simp add: sample_session_def)

lemma failing_parsed: "simpleParser failing_session = ParseError ''Unexpected end of input''"
  by (simp add: failing_session_def sample_session_def)

lemma busy_denied:
  "onData_admission busy s =
     Some (busy\<lparr>errors :=
             [\<lparr> err_id = uuidv4 s 0, err_type = rate_limit, err_code = 421,
                err_message = rate_limit_message 1, err_timestamp = timestamp s,
                err_from = fromAddress s, err_to = toAddresses s \<rparr>]\<rparr>,
           Reject 421 (rate_limit_message 1))"
  by (simp add: onData_admission_def checkRateLimit_def busy_def init_def defaults_def
      unshift_pop_def)

lemma init_admitted: "onData_admission init s = None"
  by (simp add: admission_None init_def defaults_def)

text \<open>
  C3. The counter and the last-accepted time advance once, by one and to the clock of the
  store, for a message whose ingestion succeeds, and every other outcome leaves both as
  they were: a rate-limit denial, and a message that was admitted and then failed in the
  parser. The same, said of a whole session by its reply.
\<close>

theorem counters_advance_on_success_only:
  "(onData_admission st s = Some (st', r) \<longrightarrow>
      emailsInCurrentSecond st' = emailsInCurrentSecond st \<and> lastEmailTime st' = lastEmailTime st) \<and>
   (simpleParser s = ParseError msg \<longrightarrow>
      emailsInCurrentSecond (fst (onData_ingest st s)) = emailsInCurrentSecond st \<and>
      lastEmailTime (fst (onData_ingest st s)) = lastEmailTime st) \<and>
   (simpleParser s = Parsed p \<longrightarrow>
      emailsInCurrentSecond (fst (onData_ingest st s)) = emailsInCurrentSecond st + 1 \<and>
      lastEmailTime (fst (onData_ingest st s)) = store_time s) \<and>
   (snd (onData st s) = Ack \<longrightarrow>
      emailsInCurrentSecond (fst (onData st s)) = emailsInCurrentSecond st + 1 \<and>
      lastEmailTime (fst (onData st s)) = store_time s) \<and>
   (snd (onData st s) \<noteq> Ack \<longrightarrow>
      emailsInCurrentSecond (fst (onData st s)) = emailsInCurrentSecond st \<and>
      lastEmailTime (fst (onData st s)) = lastEmailTime st)"
proof (intro conjI impI)
  assume "onData_admission st s = Some (st', r)"
  then show "emailsInCurrentSecond st' = emailsInCurrentSecond st"
    and "lastEmailTime st' = lastEmailTime st"
    by (simp_all add: admission_Some)
next
  assume "simpleParser s = ParseError msg"
  then show "emailsInCurrentSecond (fst (onData_ingest st s)) = emailsInCurrentSecond st"
    and "lastEmailTime (fst (onData_ingest st s)) = lastEmailTime st"
    by (simp_all add: ingest_ParseError)
next
  assume "simpleParser s = Parsed p"
  then show "emailsInCurrentSecond (fst (onData_ingest st s)) = emailsInCurrentSecond st + 1"
    and "lastEmailTime (fst (onData_ingest st s)) = store_time s"
    by (simp_all add: ingest_Parsed)
next
  assume ack: "snd (onData st s) = Ack"
  show "emailsInCurrentSecond (fst (onData st s)) = emailsInCurrentSecond st + 1"
    using ack
    by (cases "onData_admission st s"; cases "simpleParser s")
       (auto simp add: onData_def admission_Some ingest_Parsed ingest_ParseError)
  show "lastEmailTime (fst (onData st s)) = store_time s"
    using ack
    by (cases "onData_admission st s"; cases "simpleParser s")
       (auto simp add: onData_def admission_Some ingest_Parsed ingest_ParseError)
next
  assume nack: "snd (onData st s) \<noteq> Ack"
  show "emailsInCurrentSecond (fst (onData st s)) = emailsInCurrentSecond st"
    using nack
    by (cases "onData_admission st s"; cases "simpleParser s")
       (auto simp add: onData_def admission_Some ingest_Parsed ingest_ParseError)
  show "lastEmailTime (fst (onData st s)) = lastEmailTime st"
    using nack
    by (cases "onData_admission st s"; cases "simpleParser s")
       (auto simp add: onData_def admission_Some ingest_Parsed ingest_ParseError)
qed

theorem counters_advance_on_success_only_witness:
  "onData_admission busy sample_session =
     Some (busy\<lparr>errors :=
             [\<lparr> err_id = uuidv4 sample_session 0, err_type = rate_limit, err_code = 421,
                err_message = rate_limit_message 1, err_timestamp = timestamp sample_session,
                err_from = fromAddress sample_session, err_to = toAddresses sample_session \<rparr>]\<rparr>,
           Reject 421 (rate_limit_message 1)) \<and>
   snd (onData busy sample_session) \<noteq> Ack \<and>
   emailsInCurrentSecond (fst (onData busy sample_session)) = 1 \<and>
   lastEmailTime (fst (onData busy sample_session)) = 0 \<and>
   simpleParser failing_session = ParseError ''Unexpected end of input'' \<and>
   snd (onData init failing_session) \<noteq> Ack \<and>
   emailsInCurrentSecond (fst (onData init failing_session)) = 0 \<and>
   lastEmailTime (fst (onData init failing_session)) = 0 \<and>
   simpleParser sample_session = Parsed sample_mail \<and>
   snd (onData init sample_session) = Ack \<and>
   emailsInCurrentSecond (fst (onData init sample_session)) = 1 \<and>
   lastEmailTime (fst (onData init sample_session)) = 1700000000900"
  using counters_advance_on_success_only [of busy sample_session
      "busy\<lparr>errors :=
             [\<lparr> err_id = uuidv4 sample_session 0, err_type = rate_limit, err_code = 421,
                err_message = rate_limit_message 1, err_timestamp = timestamp sample_session,
                err_from = fromAddress sample_session, err_to = toAddresses sample_session \<rparr>]\<rparr>"
      "Reject 421 (rate_limit_message 1)" "''Unexpected end of input''" sample_mail]
    counters_advance_on_success_only [of init failing_session init Ack
      "''Unexpected end of input''" sample_mail]
    counters_advance_on_success_only [of init sample_session init Ack
      "''Unexpected end of input''" sample_mail]
  by (simp add: busy_denied init_admitted onData_def sample_parsed failing_parsed
      ingest_Parsed ingest_ParseError)
     (simp add: busy_def init_def sample_session_def)

subsection \<open>The two stores\<close>

lemma unshift_pop_take: "length xs \<le> cap \<Longrightarrow> unshift_pop cap x xs = take cap (x # xs)"
  by (cases "length xs = cap") (simp_all add: unshift_pop_def butlast_conv_take)

lemma unshift_pop_length: "length xs \<le> cap \<Longrightarrow> length (unshift_pop cap x xs) \<le> cap"
  by (simp add: unshift_pop_take)

lemma unshift_pop_full: "length xs = cap \<Longrightarrow> 0 < cap \<Longrightarrow> unshift_pop cap x xs = x # butlast xs"
  by (cases xs) (simp_all add: unshift_pop_def)

lemma unshift_pop_room: "length xs < cap \<Longrightarrow> unshift_pop cap x xs = x # xs"
  by (simp add: unshift_pop_def)


lemma take_append_take: "take n (xs @ take n ys) = take n (xs @ ys)"
  by (simp add: min_def)

lemma insert_all_take:
  "length xs \<le> cap \<Longrightarrow> insert_all cap es xs = take cap (rev es @ xs)"
proof (induction es arbitrary: xs)
  case Nil
  then show ?case by (simp add: insert_all_def)
next
  case (Cons e es)
  have "insert_all cap (e # es) xs = insert_all cap es (unshift_pop cap e xs)"
    by (simp add: insert_all_def)
  also have "\<dots> = take cap (rev es @ unshift_pop cap e xs)"
    using Cons.prems by (intro Cons.IH unshift_pop_length)
  also have "\<dots> = take cap (rev es @ take cap (e # xs))"
    using Cons.prems by (simp only: unshift_pop_take)
  also have "\<dots> = take cap (rev (e # es) @ xs)"
    by (simp only: take_append_take) simp
  finally show ?case .
qed

lemma remove_first_length: "length (remove_first p xs) \<le> length xs"
  by (induction xs) auto

lemma step_store_inv: "store_inv st \<Longrightarrow> store_inv (step st ev)"
proof (cases ev)
  case (Admission s)
  assume inv: "store_inv st"
  show ?thesis
  proof (cases "onData_admission st s")
    case None
    with inv Admission show ?thesis by simp
  next
    case (Some a)
    obtain st' r where a: "a = (st', r)" by (cases a)
    from Some [unfolded a admission_Some] inv show ?thesis
      by (simp add: Admission Some a store_inv_def unshift_pop_length)
  qed
next
  case (Ingestion s)
  assume inv: "store_inv st"
  then show ?thesis
    by (cases "simpleParser s")
       (simp_all add: Ingestion ingest_Parsed ingest_ParseError store_inv_def unshift_pop_length)
next
  case (DeleteEmail i)
  assume inv: "store_inv st"
  have "length (remove_first (\<lambda>e. email_id e = i) (emails st)) \<le> length (emails st)"
    by (rule remove_first_length)
  with inv show ?thesis by (simp add: DeleteEmail store_inv_def)
qed (simp_all add: store_inv_def)

lemma run_store_inv: "store_inv st \<Longrightarrow> store_inv (run st evs)"
  unfolding run_def
  by (induction evs arbitrary: st) (simp_all add: step_store_inv)

lemma run_ingestions:
  "emails (run st (map Ingestion ss)) = insert_all 100 (List.map_filter ingested ss) (emails st)"
  unfolding run_def
proof (induction ss arbitrary: st)
  case Nil
  show ?case by (simp add: insert_all_def)
next
  case (Cons s ss)
  show ?case
    by (cases "simpleParser s")
       (simp_all add: Cons ingest_Parsed ingest_ParseError ingested_def insert_all_def
          List.map_filter_simps)
qed

text \<open>
  C4. A denial records one error record of type \<^verbatim>\<open>rate_limit\<close> with code 421 and the
  rejection message, a parser failure one of type \<^verbatim>\<open>server_error\<close> with code 451 and
  the parser's message; the record goes to the head of the error store, which otherwise
  keeps its entries (up to the 49 newest). The email store is unchanged and the session
  is rejected with the code and message of the record. Every session that is not
  acknowledged is one of the two.
\<close>

theorem failed_session_records_one_error:
  "(onData_admission st s = Some (st', r) \<longrightarrow>
      errors st' =
        unshift_pop 50
          \<lparr> err_id = uuidv4 s 0, err_type = rate_limit, err_code = 421,
            err_message = rate_limit_message (maxPerSecond (config st)),
            err_timestamp = timestamp s, err_from = fromAddress s, err_to = toAddresses s \<rparr>
          (errors st) \<and>
      emails st' = emails st \<and>
      r = Reject 421 (rate_limit_message (maxPerSecond (config st)))) \<and>
   (simpleParser s = ParseError msg \<longrightarrow>
      errors (fst (onData_ingest st s)) =
        unshift_pop 50
          \<lparr> err_id = uuidv4 s 0, err_type = server_error, err_code = 451,
            err_message = ''451 4.3.0 Server error: '' @ msg,
            err_timestamp = timestamp s, err_from = fromAddress s, err_to = toAddresses s \<rparr>
          (errors st) \<and>
      emails (fst (onData_ingest st s)) = emails st \<and>
      snd (onData_ingest st s) = Reject 451 (''451 4.3.0 Server error: '' @ msg)) \<and>
   (length (errors st) \<le> 50 \<longrightarrow> unshift_pop 50 e (errors st) = e # take 49 (errors st)) \<and>
   (snd (onData st s) \<noteq> Ack \<longrightarrow>
      emails (fst (onData st s)) = emails st \<and>
      (\<exists>e'. errors (fst (onData st s)) = unshift_pop 50 e' (errors st) \<and>
            snd (onData st s) = Reject (err_code e') (err_message e') \<and>
            (err_type e' = rate_limit \<and> err_code e' = 421 \<or>
             err_type e' = server_error \<and> err_code e' = 451)))"
proof (intro conjI impI)
  assume "onData_admission st s = Some (st', r)"
  then show "errors st' =
        unshift_pop 50
          \<lparr> err_id = uuidv4 s 0, err_type = rate_limit, err_code = 421,
            err_message = rate_limit_message (maxPerSecond (config st)),
            err_timestamp = timestamp s, err_from = fromAddress s, err_to = toAddresses s \<rparr>
          (errors st)"
    and "emails st' = emails st"
    and "r = Reject 421 (rate_limit_message (maxPerSecond (config st)))"
    by (simp_all add: admission_Some)
next
  assume "simpleParser s = ParseError msg"
  then show "errors (fst (onData_ingest st s)) =
        unshift_pop 50
          \<lparr> err_id = uuidv4 s 0, err_type = server_error, err_code = 451,
            err_message = ''451 4.3.0 Server error: '' @ msg,
            err_timestamp = timestamp s, err_from = fromAddress s, err_to = toAddresses s \<rparr>
          (errors st)"
    and "emails (fst (onData_ingest st s)) = emails st"
    and "snd (onData_ingest st s) = Reject 451 (''451 4.3.0 Server error: '' @ msg)"
    by (simp_all add: ingest_ParseError)
next
  assume "length (errors st) \<le> 50"
  then show "unshift_pop 50 e (errors st) = e # take 49 (errors st)"
    by (simp add: unshift_pop_take)
next
  assume nack: "snd (onData st s) \<noteq> Ack"
  show "emails (fst (onData st s)) = emails st"
    using nack
    by (cases "onData_admission st s"; cases "simpleParser s")
       (auto simp add: onData_def admission_Some ingest_Parsed ingest_ParseError)
  show "\<exists>e'. errors (fst (onData st s)) = unshift_pop 50 e' (errors st) \<and>
            snd (onData st s) = Reject (err_code e') (err_message e') \<and>
            (err_type e' = rate_limit \<and> err_code e' = 421 \<or>
             err_type e' = server_error \<and> err_code e' = 451)"
  proof (cases "onData_admission st s")
    case None
    with nack obtain msg' where pe: "simpleParser s = ParseError msg'"
      by (cases "simpleParser s") (auto simp add: onData_def ingest_Parsed)
    show ?thesis
      by (rule exI [of _ "\<lparr> err_id = uuidv4 s 0, err_type = server_error, err_code = 451,
            err_message = ''451 4.3.0 Server error: '' @ msg',
            err_timestamp = timestamp s, err_from = fromAddress s, err_to = toAddresses s \<rparr>"])
         (simp add: onData_def None ingest_ParseError [OF pe])
  next
    case (Some a)
    obtain st'' r'' where a: "a = (st'', r'')" by (cases a)
    have eq: "onData st s = (st'', r'')"
      by (simp add: onData_def Some a)
    have adm: "onData_admission st s = Some (st'', r'')"
      by (simp add: Some a)
    show ?thesis
      unfolding eq
      using adm [unfolded admission_Some]
      by (intro exI [of _ "\<lparr> err_id = uuidv4 s 0, err_type = rate_limit, err_code = 421,
            err_message = rate_limit_message (maxPerSecond (config st)),
            err_timestamp = timestamp s, err_from = fromAddress s, err_to = toAddresses s \<rparr>"])
         simp
  qed
qed

theorem failed_session_records_one_error_witness:
  "onData_admission busy sample_session =
     Some (busy\<lparr>errors :=
             [\<lparr> err_id = uuidv4 sample_session 0, err_type = rate_limit, err_code = 421,
                err_message = rate_limit_message 1, err_timestamp = timestamp sample_session,
                err_from = fromAddress sample_session, err_to = toAddresses sample_session \<rparr>]\<rparr>,
           Reject 421 (rate_limit_message 1)) \<and>
   snd (onData busy sample_session) \<noteq> Ack \<and>
   emails (fst (onData busy sample_session)) = [] \<and>
   errors (fst (onData busy sample_session)) =
     [\<lparr> err_id = ''uuid-0'', err_type = rate_limit, err_code = 421,
        err_message = ''421 4.7.0 Rate limit exceeded: Maximum 1 email(s) per second allowed. Please retry after 1 second.'',
        err_timestamp = ''2023-11-14T22:13:20.250Z'',
        err_from = ''bob@example.com'',
        err_to = [''carol@example.com'', ''dave@example.com''] \<rparr>] \<and>
   simpleParser failing_session = ParseError ''Unexpected end of input'' \<and>
   length (errors init) \<le> 50 \<and>
   snd (onData init failing_session) = Reject 451 ''451 4.3.0 Server error: Unexpected end of input'' \<and>
   emails (fst (onData init failing_session)) = [] \<and>
   errors (fst (onData init failing_session)) =
     [\<lparr> err_id = ''uuid-0'', err_type = server_error, err_code = 451,
        err_message = ''451 4.3.0 Server error: Unexpected end of input'',
        err_timestamp = ''2023-11-14T22:13:20.250Z'',
        err_from = ''bob@example.com'',
        err_to = [''carol@example.com'', ''dave@example.com''] \<rparr>]"
  using failed_session_records_one_error [of busy sample_session
      "busy\<lparr>errors :=
             [\<lparr> err_id = uuidv4 sample_session 0, err_type = rate_limit, err_code = 421,
                err_message = rate_limit_message 1, err_timestamp = timestamp sample_session,
                err_from = fromAddress sample_session, err_to = toAddresses sample_session \<rparr>]\<rparr>"
      "Reject 421 (rate_limit_message 1)" "''Unexpected end of input''" undefined]
    failed_session_records_one_error [of init failing_session init Ack
      "''Unexpected end of input''" undefined]
  by (simp add: busy_denied init_admitted onData_def failing_parsed ingest_ParseError)
     (simp add: busy_def init_def sample_session_def failing_session_def unshift_pop_def
        fromAddress_def toAddresses_def or_else_def rate_limit_message_def
        number_to_string_def digits.simps char_of_def bit_0)

text \<open>
  C1. In every state the system reaches, the email store holds at most 100 entries and
  the error store at most 50. A store is newest first: after the insertions \<open>es\<close>, in
  this order, it holds the newest entries of \<open>es\<close> before its former entries, cut at the
  capacity; the emails of ingested sessions are stored so. An insertion into a full
  store drops the last entry and keeps the others in their order behind the new one; an
  insertion below capacity drops nothing. 101 insertions into the empty email store
  leave the 100 newest, newest first (and 51 into the error store the 50 newest).
\<close>

theorem stores_bounded_newest_first:
  "length (emails (run init evs)) \<le> 100 \<and> length (errors (run init evs)) \<le> 50 \<and>
   emails (run init (map Ingestion ss)) = take 100 (rev (List.map_filter ingested ss)) \<and>
   (length xs \<le> 100 \<longrightarrow> insert_all 100 es xs = take 100 (rev es @ xs)) \<and>
   (length ys \<le> 50 \<longrightarrow> insert_all 50 fs ys = take 50 (rev fs @ ys)) \<and>
   (length xs = 100 \<longrightarrow> unshift_pop 100 x xs = x # butlast xs) \<and>
   (length ys = 50 \<longrightarrow> unshift_pop 50 y ys = y # butlast ys) \<and>
   (length xs < 100 \<longrightarrow> unshift_pop 100 x xs = x # xs) \<and>
   (length ys < 50 \<longrightarrow> unshift_pop 50 y ys = y # ys) \<and>
   (length es = 101 \<longrightarrow>
      insert_all 100 es [] = rev (tl es) \<and> length (insert_all 100 es []) = 100) \<and>
   (length fs = 51 \<longrightarrow>
      insert_all 50 fs [] = rev (tl fs) \<and> length (insert_all 50 fs []) = 50)"
proof -
  have "store_inv (run init evs)"
    by (rule run_store_inv) (simp add: store_inv_def init_def)
  then have inv: "length (emails (run init evs)) \<le> 100" "length (errors (run init evs)) \<le> 50"
    by (simp_all add: store_inv_def)
  have ing: "emails (run init (map Ingestion ss)) = take 100 (rev (List.map_filter ingested ss))"
    by (simp add: run_ingestions insert_all_take init_def)
  have overflow: "insert_all n zs [] = rev (tl zs) \<and> length (insert_all n zs []) = n"
    if "length zs = Suc n" for n and zs :: "'z list"
  proof -
    from that obtain z zs' where zs: "zs = z # zs'" and len: "length zs' = n"
      by (cases zs) auto
    have "insert_all n zs [] = take n (rev zs)"
      by (simp add: insert_all_take)
    also have "\<dots> = rev zs'"
      using len by (simp add: zs)
    finally show ?thesis using len by (simp add: zs)
  qed
  show ?thesis
    using inv ing overflow [of es 100] overflow [of fs 50]
    by (simp add: insert_all_take unshift_pop_full unshift_pop_room)
qed


theorem stores_bounded_newest_first_witness:
  "length (rev [0..<100::nat]) = 100 \<and>
   unshift_pop 100 100 (rev [0..<100::nat]) = 100 # butlast (rev [0..<100]) \<and>
   length [0..<101::nat] = 101 \<and>
   insert_all 100 [0..<101::nat] [] = rev (tl [0..<101]) \<and>
   length (insert_all 100 [0..<101::nat] []) = 100 \<and>
   length (rev [0..<50::nat]) = 50 \<and>
   unshift_pop 50 50 (rev [0..<50::nat]) = 50 # butlast (rev [0..<50]) \<and>
   length [0..<51::nat] = 51 \<and>
   insert_all 50 [0..<51::nat] [] = rev (tl [0..<51]) \<and>
   length [1, 0::nat] < 50 \<and>
   unshift_pop 100 2 [1, 0::nat] = [2, 1, 0] \<and>
   unshift_pop 50 2 [1, 0::nat] = [2, 1, 0] \<and>
   insert_all 100 [3, 4] [1, 0::nat] = [4, 3, 1, 0] \<and>
   emails (run init (map Ingestion [sample_session, failing_session, sample_session])) =
     [make_email sample_session sample_mail, make_email sample_session sample_mail]"
  using stores_bounded_newest_first [of "[]" "[]" "rev [0..<100::nat]" "[0..<101]"
      "rev [0..<50::nat]" "[0..<51]" 100 50]
    stores_bounded_newest_first [of "[]" "[sample_session, failing_session, sample_session]"
      "[1, 0::nat]" "[3, 4]" "[1, 0::nat]" "[]" 2 2]
  by (simp add: ingested_def List.map_filter_simps sample_session_def failing_session_def)

subsection \<open>Base64 round trip\<close>

lemma of_char_b64_char:
  "n < 64 \<Longrightarrow> (of_char (b64_char n) :: nat) =
     (if n < 26 then 65 + n else if n < 52 then 71 + n else if n < 62 then n - 4
      else if n = 62 then 43 else 47)"
  by (simp add: b64_char_def)

lemma b64_index_char: "n < 64 \<Longrightarrow> b64_index (b64_char n) = Some n"
  unfolding b64_index_def Let_def
  by (auto simp add: of_char_b64_char simp flip: of_char_eq_iff [where ?'a = nat])

lemma b64_char_not_pad: "n < 64 \<Longrightarrow> b64_char n \<noteq> CHR ''=''"
proof
  assume "n < 64" and "b64_char n = CHR ''=''"
  then have "(of_char (b64_char n) :: nat) = 61" by simp
  with \<open>n < 64\<close> show False
    by (simp add: of_char_b64_char split: if_splits)
qed

lemma div_add_small: "r < n \<Longrightarrow> (q * n + r) div n = (q::nat)"
  by simp

lemma mod_add_small: "r < n \<Longrightarrow> (q * n + r) mod n = (r::nat)"
  by simp

lemma byte1:
  fixes a b :: nat
  assumes "b < 256"
  shows "(a div 4) * 4 + ((a mod 4) * 16 + b div 16) div 16 = a"
proof -
  have "b div 16 < 16" using assms by simp
  then have "((a mod 4) * 16 + b div 16) div 16 = a mod 4" by (rule div_add_small)
  then show ?thesis by simp
qed

lemma byte2:
  fixes a b c :: nat
  assumes "b < 256" and "c < 256"
  shows "(((a mod 4) * 16 + b div 16) mod 16) * 16 + ((b mod 16) * 4 + c div 64) div 4 = b"
proof -
  have "b div 16 < 16" using assms by simp
  then have 1: "((a mod 4) * 16 + b div 16) mod 16 = b div 16" by (rule mod_add_small)
  have "c div 64 < 4" using assms by simp
  then have 2: "((b mod 16) * 4 + c div 64) div 4 = b mod 16" by (rule div_add_small)
  show ?thesis unfolding 1 2 by simp
qed

lemma byte3:
  fixes b c :: nat
  assumes "c < 256"
  shows "(((b mod 16) * 4 + c div 64) mod 4) * 64 + c mod 64 = c"
proof -
  have "c div 64 < 4" using assms by simp
  then have 1: "((b mod 16) * 4 + c div 64) mod 4 = c div 64" by (rule mod_add_small)
  show ?thesis unfolding 1 by simp
qed

lemma byte2_last:
  fixes a b :: nat
  assumes "b < 256"
  shows "(((a mod 4) * 16 + b div 16) mod 16) * 16 + ((b mod 16) * 4) div 4 = b"
proof -
  have "b div 16 < 16" using assms by simp
  then have 1: "((a mod 4) * 16 + b div 16) mod 16 = b div 16" by (rule mod_add_small)
  show ?thesis unfolding 1 by simp
qed

lemma byte1_last:
  fixes a :: nat
  shows "(a div 4) * 4 + ((a mod 4) * 16) div 16 = a"
  by simp


lemma sextet_bounds:
  fixes a b c :: nat
  assumes "a < 256" and "b < 256" and "c < 256"
  shows "a div 4 < 64" and "(a mod 4) * 16 + b div 16 < 64"
    and "(b mod 16) * 4 + c div 64 < 64" and "c mod 64 < 64"
    and "(a mod 4) * 16 < 64" and "(b mod 16) * 4 < 64"
proof -
  have a4: "a mod 4 \<le> 3" and b16: "b mod 16 \<le> 15" by simp_all
  have bd: "b div 16 \<le> 15" and cd: "c div 64 \<le> 3" using assms by simp_all
  show "a div 4 < 64" using assms by simp
  show "(a mod 4) * 16 + b div 16 < 64" using a4 bd by linarith
  show "(b mod 16) * 4 + c div 64 < 64" using b16 cd by linarith
  show "c mod 64 < 64" by simp
  show "(a mod 4) * 16 < 64" using a4 by linarith
  show "(b mod 16) * 4 < 64" using b16 by linarith
qed

lemma sextets_lt_64: "x \<in> set (sextets buf) \<Longrightarrow> x < 64"
proof (induction buf arbitrary: x rule: sextets.induct)
  case 1
  then show ?case by simp
next
  case (2 a)
  have "(of_char a :: nat) < 256" by simp
  from sextet_bounds [OF this this this] 2 show ?case by auto
next
  case (3 a b)
  have a: "(of_char a :: nat) < 256" and b: "(of_char b :: nat) < 256" by simp_all
  from sextet_bounds [OF a b b] 3 show ?case by auto
next
  case (4 a b c bs)
  have a: "(of_char a :: nat) < 256" and b: "(of_char b :: nat) < 256"
    and c: "(of_char c :: nat) < 256" by simp_all
  from sextet_bounds [OF a b c] 4 show ?case by auto
qed

lemma unsextets_sextets: "unsextets (sextets buf) = buf"
proof (induction buf rule: sextets.induct)
  case 1
  show ?case by simp
next
  case (2 a)
  have "unsextets (sextets [a]) =
      [char_of ((of_char a div 4) * 4 + ((of_char a mod 4) * 16) div 16 :: nat)]"
    by (simp only: sextets.simps unsextets.simps)
  then show ?case by (simp only: byte1_last char_of_char)
next
  case (3 a b)
  have b: "(of_char b :: nat) < 256" by simp
  have "unsextets (sextets [a, b]) =
      [char_of ((of_char a div 4) * 4 + ((of_char a mod 4) * 16 + of_char b div 16) div 16 :: nat),
       char_of ((((of_char a mod 4) * 16 + of_char b div 16) mod 16) * 16
                + ((of_char b mod 16) * 4) div 4 :: nat)]"
    by (simp only: sextets.simps unsextets.simps)
  then show ?case by (simp only: byte1 [OF b] byte2_last [OF b] char_of_char)
next
  case (4 a b c bs)
  have b: "(of_char b :: nat) < 256" and c: "(of_char c :: nat) < 256" by simp_all
  have "unsextets (sextets (a # b # c # bs)) =
      [char_of ((of_char a div 4) * 4 + ((of_char a mod 4) * 16 + of_char b div 16) div 16 :: nat),
       char_of ((((of_char a mod 4) * 16 + of_char b div 16) mod 16) * 16
                + ((of_char b mod 16) * 4 + of_char c div 64) div 4 :: nat),
       char_of ((((of_char b mod 16) * 4 + of_char c div 64) mod 4) * 64 + of_char c mod 64 :: nat)]
      @ unsextets (sextets bs)"
    by (simp only: sextets.simps unsextets.simps append_Cons append_Nil)
  then show ?case
    by (simp only: byte1 [OF b] byte2 [OF b c] byte3 [OF c] char_of_char 4 append_Cons append_Nil)
qed

lemma map_filter_b64:
  "(\<And>x. x \<in> set ss \<Longrightarrow> x < 64) \<Longrightarrow> List.map_filter b64_index (map b64_char ss) = ss"
  by (induction ss) (simp_all add: b64_index_char)

lemma takeWhile_b64:
  assumes "\<And>x. x \<in> set ss \<Longrightarrow> x < 64"
  shows "takeWhile (\<lambda>c. c \<noteq> CHR ''='') (map b64_char ss @ replicate k (CHR ''=''))
    = map b64_char ss"
proof -
  have "takeWhile (\<lambda>c. c \<noteq> CHR ''='') (map b64_char ss @ replicate k (CHR ''=''))
    = map b64_char ss @ takeWhile (\<lambda>c. c \<noteq> CHR ''='') (replicate k (CHR ''=''))"
  proof (rule takeWhile_append2)
    fix x assume "x \<in> set (map b64_char ss)"
    then show "x \<noteq> CHR ''=''" using assms by (auto simp add: b64_char_not_pad)
  qed
  then show ?thesis by simp
qed

lemma from_to_base64: "from_base64 (to_base64 buf) = buf"
proof -
  have lt: "\<And>x. x \<in> set (sextets buf) \<Longrightarrow> x < 64" by (rule sextets_lt_64)
  show ?thesis
    unfolding from_base64_def to_base64_def
    by (simp only: takeWhile_b64 [OF lt] map_filter_b64 [OF lt] unsextets_sextets)
qed

subsection \<open>Attachments: building, storing, serving\<close>

lemma make_attachments_Some:
  assumes "p_attachments p = Some as"
  shows "make_attachments s p = map (\<lambda>i. make_attachment (uuidv4 s i) (as ! i)) [0..<length as]"
proof (rule nth_equalityI)
  show "length (make_attachments s p)
      = length (map (\<lambda>i. make_attachment (uuidv4 s i) (as ! i)) [0..<length as])"
    by (simp add: make_attachments_def assms)
next
  fix i assume "i < length (make_attachments s p)"
  then have i: "i < length as"
    by (simp add: make_attachments_def assms)
  then show "make_attachments s p ! i
      = map (\<lambda>i. make_attachment (uuidv4 s i) (as ! i)) [0..<length as] ! i"
    by (simp add: make_attachments_def assms nth_enumerate_eq)
qed

lemma make_attachments_length:
  "p_attachments p = Some as \<Longrightarrow> length (make_attachments s p) = length as"
  by (simp add: make_attachments_Some)

lemma make_attachments_nth:
  "p_attachments p = Some as \<Longrightarrow> i < length as \<Longrightarrow>
   make_attachments s p ! i = make_attachment (uuidv4 s i) (as ! i)"
  by (simp add: make_attachments_Some)

lemma find_attachment:
  assumes "p_attachments p = Some as" and "i < length as"
    and "\<forall>j<i. uuidv4 s j \<noteq> uuidv4 s i"
  shows "find (\<lambda>a. att_id a = uuidv4 s i) (make_attachments s p)
    = Some (make_attachment (uuidv4 s i) (as ! i))"
  unfolding find_Some_iff
  using assms
  by (intro exI [of _ i]) (simp add: make_attachments_length make_attachments_nth make_attachment_def)

lemma email_attachments_make: "email_attachments (make_email s p) = make_attachments s p"
  by (simp add: make_email_def Let_def)

lemma email_id_make:
  "p_attachments p = Some as \<Longrightarrow> email_id (make_email s p) = uuidv4 s (length as)"
  by (simp add: make_email_def Let_def make_attachments_length)

lemma route_found:
  assumes "find (\<lambda>e. email_id e = eid) (emails st) = Some e"
    and "find (\<lambda>a. att_id a = aid) (email_attachments e) = Some a"
    and "header_value (att_contentType a)"
    and "header_value (d @ ''; filename='' @ [CHR 0x22] @ att_filename a @ [CHR 0x22])"
  shows "attachment_route d st eid aid =
    Sent \<lparr> res_content_type = att_contentType a,
           res_content_disposition = d @ ''; filename='' @ [CHR 0x22] @ att_filename a @ [CHR 0x22],
           res_content_length = length (from_base64 (att_content a)),
           res_body = from_base64 (att_content a) \<rparr>"
  using assms by (simp add: attachment_route_def Let_def)

lemma route_throws:
  assumes "find (\<lambda>e. email_id e = eid) (emails st) = Some e"
    and "find (\<lambda>a. att_id a = aid) (email_attachments e) = Some a"
    and "\<not> header_value (d @ ''; filename='' @ [CHR 0x22] @ att_filename a @ [CHR 0x22])"
  shows "attachment_route d st eid aid = ServerError"
  using assms by (simp add: attachment_route_def Let_def)

lemma header_value_append: "header_value (u @ v) \<longleftrightarrow> header_value u \<and> header_value v"
  by (simp add: header_value_def)

lemma header_value_disposition:
  "header_value (d @ ''; filename='' @ [CHR 0x22] @ n @ [CHR 0x22])
     \<longleftrightarrow> header_value d \<and> header_value n"
  by (simp add: header_value_def header_char_def)

lemma header_value_words: "header_value ''attachment''" "header_value ''inline''"
  by (simp_all add: header_value_def header_char_def)

lemma unshift_pop_hd: "0 < cap \<Longrightarrow> unshift_pop cap x xs = x # tl (unshift_pop cap x xs)"
  by (cases xs) (simp_all add: unshift_pop_def Let_def)

lemma find_ingested:
  assumes "simpleParser s = Parsed p"
  shows "find (\<lambda>e. email_id e = email_id (make_email s p)) (emails (fst (onData_ingest st s)))
    = Some (make_email s p)"
proof -
  have "emails (fst (onData_ingest st s)) =
      make_email s p # tl (unshift_pop 100 (make_email s p) (emails st))"
    using unshift_pop_hd [of 100 "make_email s p" "emails st"]
    by (simp add: ingest_Parsed [OF assms])
  then show ?thesis by simp
qed

text \<open>
  What holds of the two routes: in a state whose email store finds the ingested email
  under its id, a request for attachment number \<open>i\<close> (whose id no earlier attachment of
  the email shares) is answered with the bytes the attachment was ingested with, their
  length, the stored content type, and a \<^verbatim>\<open>Content-Disposition\<close> that starts with
  \<^verbatim>\<open>attachment\<close> on the one route and \<^verbatim>\<open>inline\<close> on the other, provided the stored
  content type and filename are made of characters a header value may have. Right after
  the ingestion the store finds the email under its id.
\<close>

lemma attachment_round_trip:
  assumes "find (\<lambda>e. email_id e = eid) (emails st) = Some (make_email s p)"
    and "p_attachments p = Some as" and "i < length as"
    and "\<forall>j<i. uuidv4 s j \<noteq> uuidv4 s i"
    and "header_value (att_contentType (email_attachments (make_email s p) ! i))"
    and "header_value (att_filename (email_attachments (make_email s p) ! i))"
  shows "download st eid (uuidv4 s i) =
      Sent \<lparr> res_content_type = att_contentType (email_attachments (make_email s p) ! i),
             res_content_disposition =
               ''attachment; filename='' @ [CHR 0x22] @
               att_filename (email_attachments (make_email s p) ! i) @ [CHR 0x22],
             res_content_length = length (pa_content (as ! i)),
             res_body = pa_content (as ! i) \<rparr> \<and>
    inline st eid (uuidv4 s i) =
      Sent \<lparr> res_content_type = att_contentType (email_attachments (make_email s p) ! i),
             res_content_disposition =
               ''inline; filename='' @ [CHR 0x22] @
               att_filename (email_attachments (make_email s p) ! i) @ [CHR 0x22],
             res_content_length = length (pa_content (as ! i)),
             res_body = pa_content (as ! i) \<rparr> \<and>
    att_id (email_attachments (make_email s p) ! i) = uuidv4 s i \<and>
    (simpleParser s = Parsed p \<longrightarrow>
       find (\<lambda>e. email_id e = uuidv4 s (length as)) (emails (fst (onData_ingest st' s)))
         = Some (make_email s p))"
proof -
  let ?a = "make_attachment (uuidv4 s i) (as ! i)"
  have nth: "email_attachments (make_email s p) ! i = ?a"
    using assms(2,3) by (simp add: email_attachments_make make_attachments_nth)
  have fa: "find (\<lambda>a. att_id a = uuidv4 s i) (email_attachments (make_email s p)) = Some ?a"
    unfolding email_attachments_make using assms(2-4) by (rule find_attachment)
  have content: "from_base64 (att_content ?a) = pa_content (as ! i)"
    by (simp add: make_attachment_def from_to_base64)
  have id: "att_id ?a = uuidv4 s i"
    by (simp add: make_attachment_def)
  have ct: "header_value (att_contentType ?a)"
    using assms(5) by (simp only: nth)
  have cd: "header_value (''attachment'' @ ''; filename='' @ [CHR 0x22] @ att_filename ?a @ [CHR 0x22])"
    "header_value (''inline'' @ ''; filename='' @ [CHR 0x22] @ att_filename ?a @ [CHR 0x22])"
    using assms(6) by (simp_all only: nth header_value_disposition header_value_words simp_thms)
  have stored: "find (\<lambda>e. email_id e = uuidv4 s (length as)) (emails (fst (onData_ingest st' s)))
         = Some (make_email s p)" if "simpleParser s = Parsed p"
    using find_ingested [OF that, of st'] by (simp add: email_id_make [OF assms(2)])
  have dl: "download st eid (uuidv4 s i) =
      Sent \<lparr> res_content_type = att_contentType ?a,
             res_content_disposition =
               ''attachment; filename='' @ [CHR 0x22] @ att_filename ?a @ [CHR 0x22],
             res_content_length = length (pa_content (as ! i)),
             res_body = pa_content (as ! i) \<rparr>"
    unfolding download_def route_found [OF assms(1) fa ct cd(1)] content by simp
  have il: "inline st eid (uuidv4 s i) =
      Sent \<lparr> res_content_type = att_contentType ?a,
             res_content_disposition =
               ''inline; filename='' @ [CHR 0x22] @ att_filename ?a @ [CHR 0x22],
             res_content_length = length (pa_content (as ! i)),
             res_body = pa_content (as ! i) \<rparr>"
    unfolding inline_def route_found [OF assms(1) fa ct cd(2)] content by simp
  show ?thesis
    unfolding nth
    by (intro conjI impI) (fact dl, fact il, fact id, erule stored)
qed

lemma sample_attachments:
  "p_attachments sample_mail = Some
     [\<lparr> pa_filename = None, pa_contentType = None, pa_size = Some 2,
        pa_content = ''Ma'', pa_cid = None \<rparr>,
      \<lparr> pa_filename = Some ''a.txt'', pa_contentType = Some ''text/plain'', pa_size = Some 3,
        pa_content = ''Man'', pa_cid = Some ''part1'' \<rparr>]"
  by (simp add: sample_mail_def)

lemma sample_uuid: "uuidv4 sample_session k = ''uuid-'' @ digits k"
  by (simp add: sample_session_def)

lemma digits_small: "digits 0 = ''0''" "digits (Suc 0) = ''1''" "digits (Suc (Suc 0)) = ''2''"
  by (simp_all add: digits.simps char_of_def bit_0)

lemma attachment_round_trip_sample:
  "find (\<lambda>e. email_id e = ''uuid-2'') (emails (fst (onData_ingest init sample_session)))
     = Some (make_email sample_session sample_mail) \<and>
   download (fst (onData_ingest init sample_session)) ''uuid-2'' ''uuid-1'' =
     Sent \<lparr> res_content_type = ''text/plain'',
            res_content_disposition = ''attachment; filename='' @ [CHR 0x22] @ ''a.txt'' @ [CHR 0x22],
            res_content_length = 3, res_body = ''Man'' \<rparr> \<and>
   inline (fst (onData_ingest init sample_session)) ''uuid-2'' ''uuid-1'' =
     Sent \<lparr> res_content_type = ''text/plain'',
            res_content_disposition = ''inline; filename='' @ [CHR 0x22] @ ''a.txt'' @ [CHR 0x22],
            res_content_length = 3, res_body = ''Man'' \<rparr> \<and>
   download (fst (onData_ingest init sample_session)) ''uuid-2'' ''uuid-0'' =
     Sent \<lparr> res_content_type = ''application/octet-stream'',
            res_content_disposition = ''attachment; filename='' @ [CHR 0x22] @ ''unnamed'' @ [CHR 0x22],
            res_content_length = 2, res_body = ''Ma'' \<rparr>"
proof -
  have found: "find (\<lambda>e. email_id e = ''uuid-2'') (emails (fst (onData_ingest init sample_session)))
     = Some (make_email sample_session sample_mail)"
    using find_ingested [OF sample_parsed, of init]
    by (simp add: email_id_make [OF sample_attachments] sample_uuid digits_small)
  have fresh1: "\<forall>j<1. uuidv4 sample_session j \<noteq> uuidv4 sample_session 1"
    by (simp add: sample_uuid digits_small)
  have fresh0: "\<forall>j<0. uuidv4 sample_session j \<noteq> uuidv4 sample_session 0"
    by simp
  have atts: "email_attachments (make_email sample_session sample_mail) =
      [make_attachment ''uuid-0''
         \<lparr> pa_filename = None, pa_contentType = None, pa_size = Some 2,
           pa_content = ''Ma'', pa_cid = None \<rparr>,
       make_attachment ''uuid-1''
         \<lparr> pa_filename = Some ''a.txt'', pa_contentType = Some ''text/plain'', pa_size = Some 3,
           pa_content = ''Man'', pa_cid = Some ''part1'' \<rparr>]"
    by (simp add: email_attachments_make make_attachments_Some [OF sample_attachments]
        sample_uuid digits_small)
  have ok: "header_value (att_contentType (email_attachments (make_email sample_session sample_mail) ! 1))"
    "header_value (att_filename (email_attachments (make_email sample_session sample_mail) ! 1))"
    "header_value (att_contentType (email_attachments (make_email sample_session sample_mail) ! 0))"
    "header_value (att_filename (email_attachments (make_email sample_session sample_mail) ! 0))"
    by (simp_all add: atts make_attachment_def or_else_def header_value_def header_char_def)
  show ?thesis
    using found
      attachment_round_trip [OF found sample_attachments _ fresh1 ok(1,2), of init]
      attachment_round_trip [OF found sample_attachments _ fresh0 ok(3,4), of init]
    by (simp add: sample_uuid digits_small atts make_attachment_def or_else_def)
qed

lemma two_line_name_parsed: "simpleParser two_line_name_session = Parsed two_line_name_mail"
  by (simp add: two_line_name_session_def sample_session_def)

lemma two_line_name_attachments:
  "p_attachments two_line_name_mail = Some
     [\<lparr> pa_filename = Some (''a'' @ [CHR 0x0A] @ ''b.txt''),
        pa_contentType = Some ''text/plain'', pa_size = Some 3,
        pa_content = ''Man'', pa_cid = None \<rparr>]"
  by (simp add: two_line_name_mail_def)

lemma two_line_name_uuid: "uuidv4 two_line_name_session k = ''uuid-'' @ digits k"
  by (simp add: two_line_name_session_def sample_session_def)

text \<open>
  C7 does not hold of the code. A message whose one attachment has the bytes \<^verbatim>\<open>Man\<close>
  and a filename with a line feed in it is ingested and acknowledged, and its attachment
  is stored; both routes then answer the request for it with the 500 of the thrown
  \<^verbatim>\<open>setHeader\<close>, not with the bytes.
\<close>

theorem attachment_routes_throw_on_filename:
  "snd (onData init two_line_name_session) = Ack \<and>
   map email_id (emails (fst (onData init two_line_name_session))) = [''uuid-1''] \<and>
   map att_id (email_attachments (hd (emails (fst (onData init two_line_name_session)))))
     = [''uuid-0''] \<and>
   map (\<lambda>a. from_base64 (att_content a))
     (email_attachments (hd (emails (fst (onData init two_line_name_session))))) = [''Man''] \<and>
   download (fst (onData init two_line_name_session)) ''uuid-1'' ''uuid-0'' = ServerError \<and>
   inline (fst (onData init two_line_name_session)) ''uuid-1'' ''uuid-0'' = ServerError"
proof -
  have run: "onData init two_line_name_session =
      (init\<lparr>emails := [make_email two_line_name_session two_line_name_mail],
            emailsInCurrentSecond := 1, lastEmailTime := 1700000000900\<rparr>, Ack)"
    by (simp add: onData_def init_admitted ingest_Parsed [OF two_line_name_parsed]
        unshift_pop_def)
       (simp add: init_def two_line_name_session_def sample_session_def)
  have atts: "email_attachments (make_email two_line_name_session two_line_name_mail) =
      [make_attachment ''uuid-0''
         \<lparr> pa_filename = Some (''a'' @ [CHR 0x0A] @ ''b.txt''),
           pa_contentType = Some ''text/plain'', pa_size = Some 3,
           pa_content = ''Man'', pa_cid = None \<rparr>]"
    by (simp add: email_attachments_make make_attachments_Some [OF two_line_name_attachments]
        two_line_name_uuid digits_small)
  have id: "email_id (make_email two_line_name_session two_line_name_mail) = ''uuid-1''"
    by (simp add: email_id_make [OF two_line_name_attachments] two_line_name_uuid digits_small)
  have fe: "find (\<lambda>e. email_id e = ''uuid-1'') (emails (fst (onData init two_line_name_session)))
      = Some (make_email two_line_name_session two_line_name_mail)"
    by (simp add: run id)
  have fa: "find (\<lambda>a. att_id a = ''uuid-0'')
        (email_attachments (make_email two_line_name_session two_line_name_mail))
      = Some (make_attachment ''uuid-0''
         \<lparr> pa_filename = Some (''a'' @ [CHR 0x0A] @ ''b.txt''),
           pa_contentType = Some ''text/plain'', pa_size = Some 3,
           pa_content = ''Man'', pa_cid = None \<rparr>)"
    by (simp add: atts make_attachment_def)
  have bad: "\<not> header_value (d @ ''; filename='' @ [CHR 0x22] @
        att_filename (make_attachment ''uuid-0''
         \<lparr> pa_filename = Some (''a'' @ [CHR 0x0A] @ ''b.txt''),
           pa_contentType = Some ''text/plain'', pa_size = Some 3,
           pa_content = ''Man'', pa_cid = None \<rparr>) @ [CHR 0x22])" for d
    by (simp add: header_value_def header_char_def make_attachment_def or_else_def)
  have "download (fst (onData init two_line_name_session)) ''uuid-1'' ''uuid-0'' = ServerError"
    unfolding download_def by (rule route_throws [OF fe fa bad])
  moreover have "inline (fst (onData init two_line_name_session)) ''uuid-1'' ''uuid-0'' = ServerError"
    unfolding inline_def by (rule route_throws [OF fe fa bad])
  ultimately show ?thesis
    by (simp add: run id atts make_attachment_def from_to_base64)
qed

subsection \<open>The email built from a parsed message\<close>

lemma or_else_present: "a = Some t \<Longrightarrow> t \<noteq> [] \<Longrightarrow> or_else a d = t"
  by (simp add: or_else_def)

lemma or_else_absent: "a = None \<or> a = Some [] \<Longrightarrow> or_else a d = d"
  by (auto simp add: or_else_def)

lemma make_email_simps:
  "email_from (make_email s p) = or_else (p_from p) (fromAddress s)"
  "email_to (make_email s p) = or_else (p_to p) (join '', '' (toAddresses s))"
  "email_subject (make_email s p) = or_else (p_subject p) ''(no subject)''"
  "email_size (make_email s p) = (case p_text p of None \<Rightarrow> 0 | Some t \<Rightarrow> length t)"
  by (simp_all add: make_email_def Let_def)

lemma make_attachment_simps:
  "att_id (make_attachment u a) = u"
  "att_filename (make_attachment u a) = or_else (pa_filename a) ''unnamed''"
  "att_contentType (make_attachment u a) = or_else (pa_contentType a) ''application/octet-stream''"
  "att_content (make_attachment u a) = to_base64 (pa_content a)"
  by (simp_all add: make_attachment_def)

lemma attachment_ids:
  "p_attachments p = Some as \<Longrightarrow>
   map att_id (make_attachments s p) = map (uuidv4 s) [0..<length as]"
  by (simp add: make_attachments_Some make_attachment_simps comp_def)

lemma ids_distinct:
  assumes "p_attachments p = Some as" and "inj_on (uuidv4 s) {..length as}"
  shows "distinct (email_id (make_email s p) # map att_id (email_attachments (make_email s p)))"
proof -
  have "email_id (make_email s p) # map att_id (email_attachments (make_email s p))
      = map (uuidv4 s) (length as # [0..<length as])"
    by (simp add: email_id_make [OF assms(1)] email_attachments_make attachment_ids [OF assms(1)])
  moreover have "distinct (map (uuidv4 s) (length as # [0..<length as]))"
    unfolding distinct_map
    by (rule conjI, simp, rule inj_on_subset [OF assms(2)]) auto
  ultimately show ?thesis by simp
qed

lemma unshift_pop_head: "0 < cap \<Longrightarrow> hd (unshift_pop cap x xs) = x"
  by (cases xs) (simp_all add: unshift_pop_def Let_def)

text \<open>
  C9, as stated, fails in its last part: the payload of an attachment is not stored as
  received but as its Base64 text (line 139). The two attachments of the sample mail,
  with the bytes \<^verbatim>\<open>Ma\<close> and \<^verbatim>\<open>Man\<close>, are stored as \<^verbatim>\<open>TWE=\<close> and \<^verbatim>\<open>TWFu\<close>.
\<close>

theorem attachment_stored_as_base64:
  "p_attachments sample_mail = Some
     [\<lparr> pa_filename = None, pa_contentType = None, pa_size = Some 2,
        pa_content = ''Ma'', pa_cid = None \<rparr>,
      \<lparr> pa_filename = Some ''a.txt'', pa_contentType = Some ''text/plain'', pa_size = Some 3,
        pa_content = ''Man'', pa_cid = Some ''part1'' \<rparr>] \<and>
   map att_content (email_attachments (make_email sample_session sample_mail))
     = [''TWE='', ''TWFu''] \<and>
   map att_content (email_attachments (make_email sample_session sample_mail))
     \<noteq> [''Ma'', ''Man'']"
  by (simp add: sample_attachments email_attachments_make
      make_attachments_Some [OF sample_attachments] make_attachment_def
      to_base64_def b64_char_def char_of_def bit_0)

text \<open>
  C9, amended. The email built from a parsed message has: as \<^verbatim>\<open>from\<close> and \<^verbatim>\<open>to\<close> the
  text of the parsed header when it is there and not empty, otherwise the envelope
  sender (\<^verbatim>\<open>unknown\<close> when the envelope has none) and the envelope recipients joined by
  a comma and a space; the subject, or \<^verbatim>\<open>(no subject)\<close> when it is absent or empty; as
  size the length of the text body, 0 without one. Attachment number \<open>i\<close> takes the id
  of its own \<^verbatim>\<open>uuidv4()\<close> call (the email takes the call after them, so all ids differ
  when the calls return different ids), a content type and a filename that default to
  \<^verbatim>\<open>application/octet-stream\<close> and \<^verbatim>\<open>unnamed\<close>, and as content the Base64 text of
  the payload, from which decoding returns the payload as received. The handler stores
  this email at the head of the email store.
\<close>

theorem make_email_fields:
  "(p_from p = Some f \<and> f \<noteq> [] \<longrightarrow> email_from (make_email s p) = f) \<and>
   (p_from p = None \<or> p_from p = Some [] \<longrightarrow> email_from (make_email s p) = fromAddress s) \<and>
   (mailFrom s = Some a \<and> a \<noteq> [] \<longrightarrow> fromAddress s = a) \<and>
   (mailFrom s = None \<or> mailFrom s = Some [] \<longrightarrow> fromAddress s = ''unknown'') \<and>
   (p_to p = Some t \<and> t \<noteq> [] \<longrightarrow> email_to (make_email s p) = t) \<and>
   (p_to p = None \<or> p_to p = Some [] \<longrightarrow>
      email_to (make_email s p) = join '', '' (toAddresses s)) \<and>
   (rcptTo s = Some rs \<longrightarrow> toAddresses s = rs) \<and>
   (p_subject p = Some u \<and> u \<noteq> [] \<longrightarrow> email_subject (make_email s p) = u) \<and>
   (p_subject p = None \<or> p_subject p = Some [] \<longrightarrow>
      email_subject (make_email s p) = ''(no subject)'') \<and>
   (p_text p = Some x \<longrightarrow> email_size (make_email s p) = length x) \<and>
   (p_text p = None \<longrightarrow> email_size (make_email s p) = 0) \<and>
   (p_attachments p = None \<longrightarrow> email_attachments (make_email s p) = []) \<and>
   (p_attachments p = Some as \<longrightarrow>
      length (email_attachments (make_email s p)) = length as \<and>
      email_id (make_email s p) = uuidv4 s (length as) \<and>
      (inj_on (uuidv4 s) {..length as} \<longrightarrow>
         distinct (email_id (make_email s p) # map att_id (email_attachments (make_email s p)))) \<and>
      (\<forall>i<length as.
         att_id (email_attachments (make_email s p) ! i) = uuidv4 s i \<and>
         (pa_contentType (as ! i) = None \<or> pa_contentType (as ! i) = Some [] \<longrightarrow>
            att_contentType (email_attachments (make_email s p) ! i) = ''application/octet-stream'') \<and>
         (\<forall>c. pa_contentType (as ! i) = Some c \<and> c \<noteq> [] \<longrightarrow>
            att_contentType (email_attachments (make_email s p) ! i) = c) \<and>
         (pa_filename (as ! i) = None \<or> pa_filename (as ! i) = Some [] \<longrightarrow>
            att_filename (email_attachments (make_email s p) ! i) = ''unnamed'') \<and>
         (\<forall>n. pa_filename (as ! i) = Some n \<and> n \<noteq> [] \<longrightarrow>
            att_filename (email_attachments (make_email s p) ! i) = n) \<and>
         att_content (email_attachments (make_email s p) ! i) = to_base64 (pa_content (as ! i)) \<and>
         from_base64 (att_content (email_attachments (make_email s p) ! i)) = pa_content (as ! i))) \<and>
   (simpleParser s = Parsed p \<longrightarrow> hd (emails (fst (onData_ingest st s))) = make_email s p)"
proof -
  have stored: "hd (emails (fst (onData_ingest st s))) = make_email s p"
    if "simpleParser s = Parsed p"
    by (simp add: ingest_Parsed [OF that] unshift_pop_head)
  have atts: "length (email_attachments (make_email s p)) = length as \<and>
      email_id (make_email s p) = uuidv4 s (length as) \<and>
      (inj_on (uuidv4 s) {..length as} \<longrightarrow>
         distinct (email_id (make_email s p) # map att_id (email_attachments (make_email s p)))) \<and>
      (\<forall>i<length as.
         att_id (email_attachments (make_email s p) ! i) = uuidv4 s i \<and>
         (pa_contentType (as ! i) = None \<or> pa_contentType (as ! i) = Some [] \<longrightarrow>
            att_contentType (email_attachments (make_email s p) ! i) = ''application/octet-stream'') \<and>
         (\<forall>c. pa_contentType (as ! i) = Some c \<and> c \<noteq> [] \<longrightarrow>
            att_contentType (email_attachments (make_email s p) ! i) = c) \<and>
         (pa_filename (as ! i) = None \<or> pa_filename (as ! i) = Some [] \<longrightarrow>
            att_filename (email_attachments (make_email s p) ! i) = ''unnamed'') \<and>
         (\<forall>n. pa_filename (as ! i) = Some n \<and> n \<noteq> [] \<longrightarrow>
            att_filename (email_attachments (make_email s p) ! i) = n) \<and>
         att_content (email_attachments (make_email s p) ! i) = to_base64 (pa_content (as ! i)) \<and>
         from_base64 (att_content (email_attachments (make_email s p) ! i)) = pa_content (as ! i))"
    if as: "p_attachments p = Some as"
  proof (intro conjI allI impI)
    show "length (email_attachments (make_email s p)) = length as"
      by (simp add: email_attachments_make make_attachments_length [OF as])
    show "email_id (make_email s p) = uuidv4 s (length as)"
      by (rule email_id_make [OF as])
    show "distinct (email_id (make_email s p) # map att_id (email_attachments (make_email s p)))"
      if "inj_on (uuidv4 s) {..length as}"
      using as that by (rule ids_distinct)
  next
    fix i assume i: "i < length as"
    have nth: "email_attachments (make_email s p) ! i = make_attachment (uuidv4 s i) (as ! i)"
      by (simp add: email_attachments_make make_attachments_nth [OF as i])
    show "att_id (email_attachments (make_email s p) ! i) = uuidv4 s i"
      by (simp add: nth make_attachment_simps)
    show "att_contentType (email_attachments (make_email s p) ! i) = ''application/octet-stream''"
      if "pa_contentType (as ! i) = None \<or> pa_contentType (as ! i) = Some []"
      by (simp only: nth make_attachment_simps or_else_absent [OF that])
    show "att_contentType (email_attachments (make_email s p) ! i) = c"
      if "pa_contentType (as ! i) = Some c \<and> c \<noteq> []" for c
      using that by (simp only: nth make_attachment_simps) (simp add: or_else_present)
    show "att_filename (email_attachments (make_email s p) ! i) = ''unnamed''"
      if "pa_filename (as ! i) = None \<or> pa_filename (as ! i) = Some []"
      by (simp only: nth make_attachment_simps or_else_absent [OF that])
    show "att_filename (email_attachments (make_email s p) ! i) = n"
      if "pa_filename (as ! i) = Some n \<and> n \<noteq> []" for n
      using that by (simp only: nth make_attachment_simps) (simp add: or_else_present)
    show "att_content (email_attachments (make_email s p) ! i) = to_base64 (pa_content (as ! i))"
      by (simp add: nth make_attachment_simps)
    show "from_base64 (att_content (email_attachments (make_email s p) ! i)) = pa_content (as ! i)"
      by (simp add: nth make_attachment_simps from_to_base64)
  qed
  have none: "email_attachments (make_email s p) = []" if "p_attachments p = None"
    using that by (simp add: email_attachments_make make_attachments_def)
  have heads:
    "p_from p = Some f \<and> f \<noteq> [] \<longrightarrow> email_from (make_email s p) = f"
    "p_from p = None \<or> p_from p = Some [] \<longrightarrow> email_from (make_email s p) = fromAddress s"
    "mailFrom s = Some a \<and> a \<noteq> [] \<longrightarrow> fromAddress s = a"
    "mailFrom s = None \<or> mailFrom s = Some [] \<longrightarrow> fromAddress s = ''unknown''"
    "p_to p = Some t \<and> t \<noteq> [] \<longrightarrow> email_to (make_email s p) = t"
    "p_to p = None \<or> p_to p = Some [] \<longrightarrow>
      email_to (make_email s p) = join '', '' (toAddresses s)"
    "rcptTo s = Some rs \<longrightarrow> toAddresses s = rs"
    "p_subject p = Some u \<and> u \<noteq> [] \<longrightarrow> email_subject (make_email s p) = u"
    "p_subject p = None \<or> p_subject p = Some [] \<longrightarrow>
      email_subject (make_email s p) = ''(no subject)''"
    "p_text p = Some x \<longrightarrow> email_size (make_email s p) = length x"
    "p_text p = None \<longrightarrow> email_size (make_email s p) = 0"
    by (auto simp add: make_email_simps fromAddress_def toAddresses_def or_else_def)
  show ?thesis
    using heads none atts stored by blast
qed


lemma sample_mail_fields:
  "p_from sample_mail = Some ''Alice <alice@example.com>''" "p_to sample_mail = None"
  "p_subject sample_mail = None" "p_text sample_mail = Some ''hello''"
  by (simp_all add: sample_mail_def)

lemma plain_mail_fields:
  "p_from plain_mail = None" "p_to plain_mail = Some ''carol@example.com''"
  "p_subject plain_mail = Some ''Hi''" "p_text plain_mail = None"
  "p_attachments plain_mail = None"
  by (simp_all add: plain_mail_def)

lemma sample_envelope:
  "mailFrom sample_session = Some ''bob@example.com''"
  "rcptTo sample_session = Some [''carol@example.com'', ''dave@example.com'']"
  "mailFrom bounce_session = Some []"
  by (simp_all add: sample_session_def bounce_session_def)

theorem make_email_fields_witness:
  "p_from sample_mail = Some ''Alice <alice@example.com>'' \<and>
   email_from (make_email sample_session sample_mail) = ''Alice <alice@example.com>'' \<and>
   p_to sample_mail = None \<and>
   rcptTo sample_session = Some [''carol@example.com'', ''dave@example.com''] \<and>
   email_to (make_email sample_session sample_mail) = ''carol@example.com, dave@example.com'' \<and>
   p_subject sample_mail = None \<and>
   email_subject (make_email sample_session sample_mail) = ''(no subject)'' \<and>
   p_text sample_mail = Some ''hello'' \<and>
   email_size (make_email sample_session sample_mail) = 5 \<and>
   email_id (make_email sample_session sample_mail) = ''uuid-2'' \<and>
   length (email_attachments (make_email sample_session sample_mail)) = 2 \<and>
   att_id (email_attachments (make_email sample_session sample_mail) ! 0) = ''uuid-0'' \<and>
   att_contentType (email_attachments (make_email sample_session sample_mail) ! 0)
     = ''application/octet-stream'' \<and>
   att_filename (email_attachments (make_email sample_session sample_mail) ! 0) = ''unnamed'' \<and>
   from_base64 (att_content (email_attachments (make_email sample_session sample_mail) ! 0)) = ''Ma'' \<and>
   att_id (email_attachments (make_email sample_session sample_mail) ! 1) = ''uuid-1'' \<and>
   att_contentType (email_attachments (make_email sample_session sample_mail) ! 1) = ''text/plain'' \<and>
   att_filename (email_attachments (make_email sample_session sample_mail) ! 1) = ''a.txt'' \<and>
   from_base64 (att_content (email_attachments (make_email sample_session sample_mail) ! 1)) = ''Man'' \<and>
   simpleParser sample_session = Parsed sample_mail \<and>
   hd (emails (fst (onData_ingest init sample_session))) = make_email sample_session sample_mail \<and>
   p_from plain_mail = None \<and> mailFrom bounce_session = Some [] \<and>
   email_from (make_email bounce_session plain_mail) = ''unknown'' \<and>
   email_to (make_email bounce_session plain_mail) = ''carol@example.com'' \<and>
   email_subject (make_email bounce_session plain_mail) = ''Hi'' \<and>
   p_text plain_mail = None \<and>
   email_size (make_email bounce_session plain_mail) = 0 \<and>
   p_attachments plain_mail = None \<and>
   email_attachments (make_email bounce_session plain_mail) = []"
proof -
  note a = make_email_fields [of sample_mail "''Alice <alice@example.com>''" sample_session
      "''bob@example.com''" "[]" "[''carol@example.com'', ''dave@example.com'']" "[]" "''hello''"
      "[\<lparr> pa_filename = None, pa_contentType = None, pa_size = Some 2,
          pa_content = ''Ma'', pa_cid = None \<rparr>,
        \<lparr> pa_filename = Some ''a.txt'', pa_contentType = Some ''text/plain'', pa_size = Some 3,
          pa_content = ''Man'', pa_cid = Some ''part1'' \<rparr>]" init]
  note b = make_email_fields [of plain_mail "[]" bounce_session "[]" "''carol@example.com''"
      "[''carol@example.com'', ''dave@example.com'']" "''Hi''" "[]" "[]" init]
  have sample: ?thesis if "toAddresses sample_session = [''carol@example.com'', ''dave@example.com'']"
    using a b that
    by (simp add: sample_mail_fields plain_mail_fields sample_envelope sample_attachments
        sample_parsed sample_uuid digits_small less_Suc_eq all_conj_distrib imp_disjL
        from_to_base64)
  show ?thesis
    by (rule sample) (simp add: toAddresses_def sample_envelope)
qed

subsection \<open>The latency delay\<close>

text \<open>The rounding of \<open>fl64\<close> on values whose binary64 neighbours are well known.\<close>

lemma fl64_examples:
  "fl64 (1 / 10) = 3602879701896397 / 36028797018963968"
  "fl64 (1 / 3) = 6004799503160661 / 18014398509481984"
  "fl64 1000 = 1000"
  "fl64 9007199254740993 = 9007199254740992"
  "fl64 9007199254740995 = 9007199254740996"
  by code_simp+

text \<open>
  \<open>fl64\<close> is rounding to nearest: \<open>ilog2\<close> finds the binade, the result is a multiple of
  the unit in the last place and at most half a unit away, it grows with its argument,
  and the integers up to \<open>2^53\<close> are exact.
\<close>

lemma bits_pos: "0 < n \<Longrightarrow> 1 \<le> bits n"
proof (induction n rule: bits.induct)
  case (1 n)
  have "0 \<le> bits (n div 2)"
  proof (cases "0 < n div 2")
    case True
    with 1 show ?thesis by simp
  next
    case False
    then show ?thesis by (simp add: bits.simps [of "n div 2"])
  qed
  with 1 show ?case by (simp add: bits.simps [of n])
qed

lemma bits_bounds: "0 < n \<Longrightarrow> 2 ^ nat (bits n - 1) \<le> n \<and> n < 2 ^ nat (bits n)"
proof (induction n rule: bits.induct)
  case (1 n)
  show ?case
  proof (cases "n = 1")
    case True
    then show ?thesis by (simp add: bits.simps [of 1] bits.simps [of 0])
  next
    case False
    with 1 have m: "0 < n div 2" by simp
    define m where "m = n div 2"
    have bn: "bits n = 1 + bits m"
      using 1 by (simp add: bits.simps [of n] m_def)
    have pm: "1 \<le> bits m" using m by (simp add: bits_pos m_def)
    from 1 m have ih: "2 ^ nat (bits m - 1) \<le> m" "m < 2 ^ nat (bits m)"
      by (simp_all add: m_def)
    have exp: "nat (bits m) = Suc (nat (bits m - 1))" using pm by simp
    have n2: "2 * m \<le> n" "n \<le> 2 * m + 1" by (simp_all add: m_def)
    have "(2::int) ^ nat (bits m) = 2 * 2 ^ nat (bits m - 1)"
      by (simp only: exp power_Suc)
    then have lo: "(2::int) ^ nat (bits m) \<le> n" using ih(1) n2(1) by linarith
    have "m + 1 \<le> 2 ^ nat (bits m)" using ih(2) by simp
    then have hi: "n < 2 * 2 ^ nat (bits m)" using n2(2) by linarith
    have e1: "nat (bits n - 1) = nat (bits m)" by (simp add: bn)
    have e2: "nat (bits n) = Suc (nat (bits m))" using pm by (simp add: bn)
    show ?thesis unfolding e1 e2 using lo hi by simp
  qed
qed

lemma round_half_even_error: "\<bar>of_int (round_half_even q) - q\<bar> \<le> 1 / 2"
proof -
  define d where "d = q - of_int \<lfloor>q\<rfloor>"
  have d: "0 \<le> d" "d < 1" unfolding d_def by linarith+
  have q: "q = of_int \<lfloor>q\<rfloor> + d" by (simp add: d_def)
  consider "d < 1 / 2" | "1 / 2 < d" | "d = 1 / 2" by linarith
  then show ?thesis
  proof cases
    case 1
    then have "round_half_even q = \<lfloor>q\<rfloor>"
      by (simp add: round_half_even_def Let_def d_def)
    then show ?thesis using 1 d by (simp add: d_def)
  next
    case 2
    then have "round_half_even q = \<lfloor>q\<rfloor> + 1"
      by (simp add: round_half_even_def Let_def d_def)
    then have "of_int (round_half_even q) - q = 1 - d"
      by (simp add: d_def)
    then show ?thesis using 2 d by simp
  next
    case 3
    then have "round_half_even q = \<lfloor>q\<rfloor> \<or> round_half_even q = \<lfloor>q\<rfloor> + 1"
      by (simp add: round_half_even_def Let_def d_def)
    then have "of_int (round_half_even q) - q = - d \<or> of_int (round_half_even q) - q = 1 - d"
      by (auto simp add: d_def)
    then show ?thesis using 3 by auto
  qed
qed

lemma round_half_even_int: "round_half_even (of_int k) = k"
  by (simp add: round_half_even_def)

lemma pow2_pos: "0 < pow2 k"
  by (simp add: pow2_def)


lemma ilog2_bounds:
  assumes "0 < x"
  shows "pow2 (ilog2 x) \<le> x" and "x < pow2 (ilog2 x + 1)"
proof -
  show "pow2 (ilog2 x) \<le> x"
  proof (cases "1 \<le> x")
    case True
    then have n: "0 < \<lfloor>x\<rfloor>" by simp
    from bits_bounds [OF n] have "(2::int) ^ nat (bits \<lfloor>x\<rfloor> - 1) \<le> \<lfloor>x\<rfloor>" by simp
    then have "of_int ((2::int) ^ nat (bits \<lfloor>x\<rfloor> - 1)) \<le> (of_int \<lfloor>x\<rfloor> :: rat)"
      by (simp only: of_int_le_iff)
    also have "\<dots> \<le> x" by simp
    finally show ?thesis
      using True bits_pos [OF n] by (simp add: ilog2_def pow2_def)
  next
    case False
    define c where "c = \<lceil>1 / x\<rceil>"
    have y: "1 < 1 / x" using assms False by simp
    then have c: "0 < c - 1" unfolding c_def by (simp add: less_ceiling_iff)
    have "1 / x \<le> of_int c" unfolding c_def by simp
    also have "c \<le> 2 ^ nat (bits (c - 1))" using bits_bounds [OF c] by simp
    then have "(of_int c :: rat) \<le> of_int (2 ^ nat (bits (c - 1)))" by (simp only: of_int_le_iff)
    finally have "1 / x \<le> 2 ^ nat (bits (c - 1))" by simp
    then have "1 / 2 ^ nat (bits (c - 1)) \<le> x"
      using assms by (simp add: field_simps)
    then show ?thesis
      using False bits_pos [OF c] by (simp add: ilog2_def pow2_def c_def)
  qed
  show "x < pow2 (ilog2 x + 1)"
  proof (cases "1 \<le> x")
    case True
    then have n: "0 < \<lfloor>x\<rfloor>" by simp
    have "x < of_int (\<lfloor>x\<rfloor> + 1)" by linarith
    also have "\<lfloor>x\<rfloor> + 1 \<le> 2 ^ nat (bits \<lfloor>x\<rfloor>)" using bits_bounds [OF n] by simp
    then have "(of_int (\<lfloor>x\<rfloor> + 1) :: rat) \<le> of_int (2 ^ nat (bits \<lfloor>x\<rfloor>))"
      by (simp only: of_int_le_iff)
    finally have "x < 2 ^ nat (bits \<lfloor>x\<rfloor>)" by simp
    then show ?thesis
      using True bits_pos [OF n] by (simp add: ilog2_def pow2_def)
  next
    case False
    define c where "c = \<lceil>1 / x\<rceil>"
    define k where "k = bits (c - 1)"
    have y: "1 < 1 / x" using assms False by simp
    then have c: "0 < c - 1" unfolding c_def by (simp add: less_ceiling_iff)
    have k: "1 \<le> k" unfolding k_def using c by (rule bits_pos)
    have "(2::int) ^ nat (k - 1) \<le> c - 1" using bits_bounds [OF c] by (simp add: k_def)
    then have "(of_int (2 ^ nat (k - 1)) :: rat) \<le> of_int (c - 1)" by (simp only: of_int_le_iff)
    also have "(of_int (c - 1) :: rat) < 1 / x" unfolding c_def by linarith
    finally have lt: "2 ^ nat (k - 1) < 1 / x" by simp
    have "x < 1 / 2 ^ nat (k - 1)"
      using assms lt by (simp add: field_simps)
    moreover have "pow2 (ilog2 x + 1) = 1 / 2 ^ nat (k - 1)"
      using False k by (auto simp add: ilog2_def pow2_def c_def k_def)
    ultimately show ?thesis by simp
  qed
qed


lemma fl64_grid:
  "fl64 x = of_int (round_half_even (x / pow2 (max (ilog2 \<bar>x\<bar>) (- 1022) - 52)))
     * pow2 (max (ilog2 \<bar>x\<bar>) (- 1022) - 52)"
  by (simp add: fl64_def Let_def round_half_even_def)

lemma fl64_error: "\<bar>fl64 x - x\<bar> \<le> pow2 (max (ilog2 \<bar>x\<bar>) (- 1022) - 52) / 2"
proof -
  define u where "u = pow2 (max (ilog2 \<bar>x\<bar>) (- 1022) - 52)"
  have u: "0 < u" unfolding u_def by (rule pow2_pos)
  have "fl64 x - x = (of_int (round_half_even (x / u)) - x / u) * u"
    using u by (simp add: fl64_grid u_def algebra_simps)
  then have "\<bar>fl64 x - x\<bar> = \<bar>of_int (round_half_even (x / u)) - x / u\<bar> * u"
    using u by (simp add: abs_mult)
  also have "\<dots> \<le> (1 / 2) * u"
    using u round_half_even_error [of "x / u"] by (intro mult_right_mono) simp_all
  finally show ?thesis by (simp add: u_def)
qed

lemma pow2_mono: "a \<le> b \<Longrightarrow> pow2 a \<le> pow2 b"
proof -
  have eq: "pow2 k = 2 powi k" for k
    by (simp add: pow2_def power_int_def field_simps)
  assume "a \<le> b"
  then show ?thesis unfolding eq by (intro power_int_increasing) simp_all
qed

lemma pow2_strict_mono: "a < b \<Longrightarrow> pow2 a < pow2 b"
proof -
  have eq: "pow2 k = 2 powi k" for k
    by (simp add: pow2_def power_int_def field_simps)
  assume "a < b"
  then show ?thesis unfolding eq by (intro power_int_strict_increasing) simp_all
qed


lemma pow2_powi: "pow2 k = 2 powi k"
  by (simp add: pow2_def power_int_def field_simps)

lemma pow2_add: "pow2 (a + b) = pow2 a * pow2 b"
  by (simp add: pow2_powi power_int_add)

lemma pow2_split: "pow2 e = pow2 k * pow2 (e - k)"
  by (simp add: pow2_add [symmetric])

lemma pow2_nat: "0 \<le> k \<Longrightarrow> pow2 k = 2 ^ nat k"
  by (simp add: pow2_def)

lemma ilog2_unique:
  assumes "0 < x" and "pow2 e \<le> x" and "x < pow2 (e + 1)"
  shows "ilog2 x = e"
proof -
  have "pow2 (ilog2 x) < pow2 (e + 1)"
    using ilog2_bounds(1) [OF assms(1)] assms(3) by simp
  then have 1: "ilog2 x < e + 1"
    using pow2_mono [of "e + 1" "ilog2 x"] by (cases "ilog2 x < e + 1") simp_all
  have "pow2 e < pow2 (ilog2 x + 1)"
    using ilog2_bounds(2) [OF assms(1)] assms(2) by simp
  then have 2: "e < ilog2 x + 1"
    using pow2_mono [of "ilog2 x + 1" e] by (cases "e < ilog2 x + 1") simp_all
  from 1 2 show ?thesis by simp
qed

lemma ilog2_mono:
  assumes "0 < x" and "x \<le> y"
  shows "ilog2 x \<le> ilog2 y"
proof -
  have y: "0 < y" using assms by simp
  have "pow2 (ilog2 x) < pow2 (ilog2 y + 1)"
    using ilog2_bounds(1) [OF assms(1)] ilog2_bounds(2) [OF y] assms(2) by simp
  then have "ilog2 x < ilog2 y + 1"
    using pow2_mono [of "ilog2 y + 1" "ilog2 x"] by (cases "ilog2 x < ilog2 y + 1") simp_all
  then show ?thesis by simp
qed

lemma round_half_even_cases: "round_half_even q = \<lfloor>q\<rfloor> \<or> round_half_even q = \<lfloor>q\<rfloor> + 1"
  by (simp add: round_half_even_def Let_def)

lemma round_half_even_mono:
  assumes "q \<le> q'"
  shows "round_half_even q \<le> round_half_even q'"
proof (cases "\<lfloor>q\<rfloor> = \<lfloor>q'\<rfloor>")
  case True
  have "q - of_int \<lfloor>q\<rfloor> \<le> q' - of_int \<lfloor>q'\<rfloor>" using assms True by simp
  then show ?thesis
    unfolding round_half_even_def Let_def True by auto
next
  case False
  have "\<lfloor>q\<rfloor> \<le> \<lfloor>q'\<rfloor>" using assms by (rule floor_mono)
  with False have "\<lfloor>q\<rfloor> + 1 \<le> \<lfloor>q'\<rfloor>" by simp
  moreover have "round_half_even q \<le> \<lfloor>q\<rfloor> + 1"
    using round_half_even_cases [of q] by auto
  moreover have "\<lfloor>q'\<rfloor> \<le> round_half_even q'"
    using round_half_even_cases [of q'] by auto
  ultimately show ?thesis by linarith
qed


lemma fl64_pos:
  "x \<noteq> 0 \<Longrightarrow> fl64 x = of_int (round_half_even (x / pow2 (expo x - 52))) * pow2 (expo x - 52)"
  by (simp add: fl64_def Let_def expo_def)

lemma fl64_nonneg: "0 \<le> x \<Longrightarrow> 0 \<le> fl64 x"
proof (cases "x = 0")
  case True
  then show ?thesis by (simp add: fl64_def)
next
  case False
  assume "0 \<le> x"
  then have "0 \<le> x / pow2 (expo x - 52)" using pow2_pos [of "expo x - 52"] by simp
  then have "round_half_even 0 \<le> round_half_even (x / pow2 (expo x - 52))"
    by (rule round_half_even_mono)
  then have "0 \<le> round_half_even (x / pow2 (expo x - 52))"
    using round_half_even_int [of 0] by simp
  then show ?thesis
    using pow2_pos [of "expo x - 52"] by (simp add: fl64_pos [OF False])
qed

lemma fl64_ge_binade:
  assumes "0 < x" and "- 1022 \<le> ilog2 x"
  shows "pow2 (ilog2 x) \<le> fl64 x"
proof -
  have e: "expo x = ilog2 x" using assms by (simp add: expo_def)
  define u where "u = pow2 (ilog2 x - 52)"
  have u: "0 < u" unfolding u_def by (rule pow2_pos)
  have "pow2 (ilog2 x) = pow2 52 * pow2 (ilog2 x - 52)"
    by (rule pow2_split)
  then have p: "pow2 (ilog2 x) = of_int (2 ^ 52) * u"
    by (simp add: u_def pow2_nat)
  have "of_int (2 ^ 52) * u \<le> x" using ilog2_bounds(1) [OF assms(1)] p by simp
  then have "of_int (2 ^ 52) \<le> x / u" using u by (simp add: field_simps)
  then have "round_half_even (of_int (2 ^ 52)) \<le> round_half_even (x / u)"
    by (rule round_half_even_mono)
  then have "(2 ^ 52 :: int) \<le> round_half_even (x / u)"
    by (simp only: round_half_even_int)
  then have "(of_int (2 ^ 52) :: rat) \<le> of_int (round_half_even (x / u))"
    by (simp only: of_int_le_iff)
  then have "of_int (2 ^ 52) * u \<le> of_int (round_half_even (x / u)) * u"
    using u by (intro mult_right_mono) simp_all
  then show ?thesis
    using assms(1) by (simp add: fl64_pos e p u_def)
qed

lemma fl64_le_binade:
  assumes "0 < x"
  shows "fl64 x \<le> pow2 (expo x + 1)"
proof -
  define u where "u = pow2 (expo x - 52)"
  have u: "0 < u" unfolding u_def by (rule pow2_pos)
  have "pow2 (expo x + 1) = pow2 53 * pow2 (expo x - 52)"
    using pow2_split [of "expo x + 1" 53] by simp
  then have p: "pow2 (expo x + 1) = of_int (2 ^ 53) * u"
    by (simp add: u_def pow2_nat)
  have "ilog2 x + 1 \<le> expo x + 1" using assms by (simp add: expo_def)
  then have "pow2 (ilog2 x + 1) \<le> pow2 (expo x + 1)" by (rule pow2_mono)
  then have "x \<le> of_int (2 ^ 53) * u" using ilog2_bounds(2) [OF assms] p by simp
  then have "x / u \<le> of_int (2 ^ 53)" using u by (simp add: field_simps)
  then have "round_half_even (x / u) \<le> round_half_even (of_int (2 ^ 53))"
    by (rule round_half_even_mono)
  then have "round_half_even (x / u) \<le> (2 ^ 53 :: int)"
    by (simp only: round_half_even_int)
  then have "(of_int (round_half_even (x / u)) :: rat) \<le> of_int (2 ^ 53)"
    by (simp only: of_int_le_iff)
  then have "of_int (round_half_even (x / u)) * u \<le> of_int (2 ^ 53) * u"
    using u by (intro mult_right_mono) simp_all
  then show ?thesis
    using assms by (simp add: fl64_pos p u_def)
qed

lemma fl64_mono:
  assumes "0 \<le> x" and "x \<le> y"
  shows "fl64 x \<le> fl64 y"
proof (cases "x = 0")
  case True
  then show ?thesis using fl64_nonneg [of y] assms by (simp add: fl64_def)
next
  case False
  then have x: "0 < x" and y: "0 < y" using assms by simp_all
  have ee: "expo x \<le> expo y"
    using ilog2_mono [OF x assms(2)] x y by (simp add: expo_def)
  show ?thesis
  proof (cases "expo x = expo y")
    case True
    have "x / pow2 (expo y - 52) \<le> y / pow2 (expo y - 52)"
      using assms(2) pow2_pos [of "expo y - 52"] by (simp add: divide_right_mono)
    then have "round_half_even (x / pow2 (expo y - 52)) \<le> round_half_even (y / pow2 (expo y - 52))"
      by (rule round_half_even_mono)
    then have "(of_int (round_half_even (x / pow2 (expo y - 52))) :: rat)
        \<le> of_int (round_half_even (y / pow2 (expo y - 52)))"
      by (simp only: of_int_le_iff)
    then show ?thesis
      using x y pow2_pos [of "expo y - 52"]
      by (simp add: fl64_pos True mult_right_mono)
  next
    case False
    with ee have lt: "expo x + 1 \<le> expo y" by simp
    then have "- 1022 < expo y" by (simp add: expo_def)
    then have ey: "expo y = ilog2 y" "- 1022 \<le> ilog2 y"
      using y by (simp_all add: expo_def max_def split: if_splits)
    have "fl64 x \<le> pow2 (expo x + 1)" using x by (rule fl64_le_binade)
    also have "\<dots> \<le> pow2 (expo y)" using lt by (rule pow2_mono)
    also have "\<dots> \<le> fl64 y" unfolding ey(1) using y ey(2) by (rule fl64_ge_binade)
    finally show ?thesis .
  qed
qed


lemma fl64_of_int:
  assumes "0 \<le> n" and "n \<le> 2 ^ 53"
  shows "fl64 (of_int n) = of_int n"
proof (cases "n = 0")
  case True
  then show ?thesis by (simp add: fl64_def)
next
  case False
  define x :: rat where "x = of_int n"
  have x: "0 < x" "1 \<le> x" "x \<le> 2 ^ 53"
    using assms False by (simp_all add: x_def)
  have e0: "0 \<le> ilog2 x"
  proof (rule ccontr)
    assume "\<not> 0 \<le> ilog2 x"
    then have "ilog2 x + 1 \<le> 0" by simp
    then have "pow2 (ilog2 x + 1) \<le> pow2 0" by (rule pow2_mono)
    then show False using ilog2_bounds(2) [OF x(1)] x(2) by (simp add: pow2_def)
  qed
  have e53: "ilog2 x \<le> 53"
  proof (rule ccontr)
    assume "\<not> ilog2 x \<le> 53"
    then have "54 \<le> ilog2 x" by simp
    then have "pow2 54 \<le> pow2 (ilog2 x)" by (rule pow2_mono)
    then show False using ilog2_bounds(1) [OF x(1)] x(3) by (simp add: pow2_def)
  qed
  have ex: "expo x = ilog2 x" using e0 x(1) by (simp add: expo_def)
  have "\<exists>k. x / pow2 (ilog2 x - 52) = of_int k"
  proof (cases "ilog2 x \<le> 52")
    case True
    then have "pow2 (ilog2 x - 52) = 1 / 2 ^ nat (52 - ilog2 x)"
      by (cases "ilog2 x = 52") (simp_all add: pow2_def)
    then have "x / pow2 (ilog2 x - 52) = of_int (n * 2 ^ nat (52 - ilog2 x))"
      by (simp add: x_def)
    then show ?thesis ..
  next
    case False
    with e53 have e: "ilog2 x = 53" by simp
    have "2 ^ 53 \<le> x" using ilog2_bounds(1) [OF x(1)] by (simp add: e pow2_def)
    with x(3) have x53: "x = 2 ^ 53" by simp
    have u2: "pow2 (ilog2 x - 52) = 2" by (simp add: e pow2_def)
    have "x / pow2 (ilog2 x - 52) = of_int (2 ^ 52)"
      unfolding u2 by (simp add: x53)
    then show ?thesis ..
  qed
  then obtain k where k: "x / pow2 (ilog2 x - 52) = of_int k" ..
  have "fl64 x = of_int k * pow2 (ilog2 x - 52)"
    using x(1) by (simp add: fl64_pos ex k round_half_even_int)
  also have "\<dots> = x"
    using k pow2_pos [of "ilog2 x - 52"] by (simp add: field_simps)
  finally show ?thesis by (simp add: x_def)
qed

text \<open>
  What holds of the delay: none when latency simulation is disabled; when enabled, for
  integers \<open>0 \<le> minMs \<le> maxMs < 2^53\<close> and every draw in \<open>[0, 1)\<close>, an integer
  between \<^verbatim>\<open>minMs\<close> and \<^verbatim>\<open>maxMs + 1\<close>; and in exact arithmetic an integer between
  \<^verbatim>\<open>minMs\<close> and \<^verbatim>\<open>maxMs\<close>.
\<close>

lemma simulateLatency_disabled: "\<not> latency_enabled cfg \<Longrightarrow> simulateLatency cfg r = None"
  by (simp add: simulateLatency_def)

lemma exact_delay_in_range:
  fixes r :: rat
  assumes "0 \<le> r" and "r < 1" and "lo \<le> hi"
  shows "lo \<le> \<lfloor>r * (of_int hi - of_int lo + 1) + of_int lo\<rfloor>"
    and "\<lfloor>r * (of_int hi - of_int lo + 1) + of_int lo\<rfloor> \<le> hi"
proof -
  define n :: rat where "n = of_int hi - of_int lo + 1"
  have n: "1 \<le> n" using assms(3) by (simp add: n_def)
  have lower: "0 \<le> r * n" using assms(1) n by simp
  have "r * n < 1 * n" using assms(2) n by (intro mult_strict_right_mono) simp_all
  then have upper: "r * n < of_int (hi - lo + 1)" by (simp add: n_def)
  have fl: "\<lfloor>r * n + of_int lo\<rfloor> = \<lfloor>r * n\<rfloor> + lo" by simp
  have "0 \<le> \<lfloor>r * n\<rfloor>" using lower by simp
  moreover have "\<lfloor>r * n\<rfloor> < hi - lo + 1" using upper by (simp only: floor_less_iff)
  ultimately show "lo \<le> \<lfloor>r * (of_int hi - of_int lo + 1) + of_int lo\<rfloor>"
    and "\<lfloor>r * (of_int hi - of_int lo + 1) + of_int lo\<rfloor> \<le> hi"
    unfolding n_def [symmetric] fl by simp_all
qed

lemma simulateLatency_bounds:
  assumes "latency_enabled cfg" and "0 \<le> minMs cfg" and "minMs cfg \<le> maxMs cfg"
    and "maxMs cfg < 2 ^ 53" and "0 \<le> r" and "r < 1"
  shows "\<exists>delay. simulateLatency cfg r = Some delay \<and> minMs cfg \<le> delay \<and> delay \<le> maxMs cfg + 1"
proof -
  define lo hi where "lo = minMs cfg" and "hi = maxMs cfg"
  define n where "n = hi - lo + 1"
  have lohi: "0 \<le> lo" "lo \<le> hi" "hi < 2 ^ 53" using assms by (simp_all add: lo_def hi_def)
  have n: "1 \<le> n" "n \<le> 2 ^ 53" using lohi by (simp_all add: n_def)
  have sub: "js_sub (of_int hi) (of_int lo) = of_int (hi - lo)"
    using fl64_of_int [of "hi - lo"] lohi by (simp add: js_sub_def)
  have add: "js_add (of_int (hi - lo)) 1 = of_int n"
    using fl64_of_int [of n] n by (simp add: js_add_def n_def)
  define c where "c = js_mul r (of_int n)"
  have rn: "0 \<le> r * of_int n" "r * of_int n \<le> of_int n"
    using assms(5,6) n(1) by (simp_all add: mult_left_le_one_le)
  have c0: "0 \<le> c" unfolding c_def js_mul_def using rn(1) by (rule fl64_nonneg)
  have "fl64 (r * of_int n) \<le> fl64 (of_int n)" using rn by (rule fl64_mono)
  then have cn: "c \<le> of_int n"
    using fl64_of_int [of n] n by (simp add: c_def js_mul_def)
  define d where "d = js_add c (of_int lo)"
  have "fl64 (of_int lo) \<le> fl64 (c + of_int lo)"
    using lohi(1) c0 by (intro fl64_mono) simp_all
  then have dlo: "of_int lo \<le> d"
    using fl64_of_int [of lo] lohi by (simp add: d_def js_add_def)
  have "fl64 (c + of_int lo) \<le> fl64 (of_int (hi + 1))"
    using lohi(1) c0 cn by (intro fl64_mono) (simp_all add: n_def)
  then have dhi: "d \<le> of_int (hi + 1)"
    using fl64_of_int [of "hi + 1"] lohi by (simp add: d_def js_add_def)
  have "simulateLatency cfg r = Some \<lfloor>d\<rfloor>"
    using assms(1) sub add
    by (simp add: simulateLatency_def d_def c_def lo_def [symmetric] hi_def [symmetric])
  moreover have "lo \<le> \<lfloor>d\<rfloor>" using dlo by (simp add: le_floor_iff)
  moreover have "\<lfloor>d\<rfloor> \<le> hi + 1" using dhi by (simp add: floor_le_iff)
  ultimately show ?thesis by (simp add: lo_def hi_def)
qed

text \<open>
  C8 does not hold of the code. With latency enabled and \<^verbatim>\<open>minMs = maxMs = 1000\<close>, and
  \<^verbatim>\<open>Math.random()\<close> returning \<open>1 - 2^-52\<close> (printed \<^verbatim>\<open>0.9999999999999998\<close>), the
  product with \<open>maxMs - minMs + 1 = 1\<close> is exact, and the sum with 1000,
  \<open>1001 - 2^-52\<close>, is not a binary64 value: its neighbours are \<open>1001 - 2^-43\<close> and
  \<open>1001\<close>, and it rounds to \<open>1001\<close>. The delay is 1001 ms, above \<^verbatim>\<open>maxMs\<close>.
\<close>

theorem simulateLatency_exceeds_maxMs:
  "simulateLatency (defaults\<lparr>latency_enabled := True, minMs := 1000, maxMs := 1000\<rparr>)
     (4503599627370495 / 4503599627370496) = Some 1001"
  by code_simp

end
